theory Spec2Isabelle
  imports Main "HOL-Library.Sublist" "HOL-Library.Char_ord" "HOL-Library.Word"
    "HOL-Library.Log_Nat"
begin

section \<open>Go strings as byte lists\<close>

text \<open>
  A Go \<^verbatim>\<open>string\<close> is a sequence of bytes; it is modelled as a \<^typ>\<open>string\<close>, every
  \<^typ>\<open>char\<close> being one byte. Bytes below \<open>0x80\<close> are ASCII; in UTF-8 every byte of a
  multi-byte rune is \<open>0x80\<close> or above, so an ASCII byte is always a rune of its own.
\<close>

definition isASCII :: "char \<Rightarrow> bool" where
  "isASCII c = (of_char c < (128::nat))"

text \<open>
  \<^verbatim>\<open>unicode.IsSpace\<close> holds for the six ASCII bytes tab, LF, VT, FF, CR and space, and for
  U+0085, U+00A0, U+1680, U+2000..U+200A, U+2028, U+2029, U+202F, U+205F and U+3000.
  \<open>asciiSpace\<close> is the table of the same name in package \<^verbatim>\<open>strings\<close>;
  \<open>unicodeSpace\<close> lists the UTF-8 encodings of the other code points.
\<close>

definition asciiSpace :: "char \<Rightarrow> bool" where
  "asciiSpace c = (c \<in> {CHR 0x09, CHR 0x0A, CHR 0x0B, CHR 0x0C, CHR 0x0D, CHR 0x20})"

definition unicodeSpace :: "string list" where
  "unicodeSpace =
     [[CHR 0xC2, CHR 0x85], [CHR 0xC2, CHR 0xA0], [CHR 0xE1, CHR 0x9A, CHR 0x80],
      [CHR 0xE2, CHR 0x80, CHR 0x80], [CHR 0xE2, CHR 0x80, CHR 0x81],
      [CHR 0xE2, CHR 0x80, CHR 0x82], [CHR 0xE2, CHR 0x80, CHR 0x83],
      [CHR 0xE2, CHR 0x80, CHR 0x84], [CHR 0xE2, CHR 0x80, CHR 0x85],
      [CHR 0xE2, CHR 0x80, CHR 0x86], [CHR 0xE2, CHR 0x80, CHR 0x87],
      [CHR 0xE2, CHR 0x80, CHR 0x88], [CHR 0xE2, CHR 0x80, CHR 0x89],
      [CHR 0xE2, CHR 0x80, CHR 0x8A], [CHR 0xE2, CHR 0x80, CHR 0xA8],
      [CHR 0xE2, CHR 0x80, CHR 0xA9], [CHR 0xE2, CHR 0x80, CHR 0xAF],
      [CHR 0xE2, CHR 0x81, CHR 0x9F], [CHR 0xE3, CHR 0x80, CHR 0x80]]"

text \<open>
  \<open>spaceLen s\<close> is the width in bytes of the white-space rune that \<open>s\<close> starts with, and
  0 when \<open>s\<close> starts with anything else; \<open>spaceLenEnd\<close> is the same for the rune that
  \<open>s\<close> ends with (\<^verbatim>\<open>utf8.DecodeRuneInString\<close> and \<^verbatim>\<open>utf8.DecodeLastRuneInString\<close> followed by
  \<^verbatim>\<open>unicode.IsSpace\<close>; an ill-formed sequence decodes to U+FFFD, which is no space).
\<close>

definition spaceLen :: "string \<Rightarrow> nat" where
  "spaceLen s =
     (case s of [] \<Rightarrow> 0
      | c # _ \<Rightarrow>
          if asciiSpace c then 1
          else (case find (\<lambda>p. prefix p s) unicodeSpace of None \<Rightarrow> 0 | Some p \<Rightarrow> length p))"

definition spaceLenEnd :: "string \<Rightarrow> nat" where
  "spaceLenEnd s =
     (case rev s of [] \<Rightarrow> 0
      | c # _ \<Rightarrow>
          if asciiSpace c then 1
          else (case find (\<lambda>p. suffix p s) unicodeSpace of None \<Rightarrow> 0 | Some p \<Rightarrow> length p))"

function TrimLeftSpace :: "string \<Rightarrow> string" where
  "TrimLeftSpace s = (if spaceLen s = 0 then s else TrimLeftSpace (drop (spaceLen s) s))"
  by pat_completeness auto
termination
  by (relation "measure length") (auto simp: spaceLen_def split: list.splits)

function TrimRightSpace :: "string \<Rightarrow> string" where
  "TrimRightSpace s =
     (if spaceLenEnd s = 0 then s else TrimRightSpace (take (length s - spaceLenEnd s) s))"
  by pat_completeness auto
termination
proof (relation "measure length")
  show "wf (measure length)" by simp
next
  fix s :: string
  assume "spaceLenEnd s \<noteq> 0"
  then have "s \<noteq> []" by (auto simp: spaceLenEnd_def)
  with \<open>spaceLenEnd s \<noteq> 0\<close> show "(take (length s - spaceLenEnd s) s, s) \<in> measure length"
    by simp
qed

declare TrimLeftSpace.simps [simp del] TrimRightSpace.simps [simp del]

text \<open>\<^verbatim>\<open>strings.TrimSpace\<close>: all leading, then all trailing white space removed.\<close>

definition TrimSpace :: "string \<Rightarrow> string" where
  "TrimSpace s = TrimRightSpace (TrimLeftSpace s)"

text \<open>
  \<^verbatim>\<open>strings.ToLower\<close>. On an all-ASCII string the bytes \<open>A\<close>..\<open>Z\<close> are moved to \<open>a\<close>..\<open>z\<close>.
  Otherwise Go maps \<^verbatim>\<open>unicode.ToLower\<close> over the runes; an ASCII byte is a rune of its own
  and is lowered the same way, and each maximal run of non-ASCII bytes is decoded,
  lowered and encoded again independently of what surrounds it. The Unicode tables are
  not part of the program: \<open>lowU\<close> stands for what Go makes of such a run.
\<close>

definition lowerASCII :: "char \<Rightarrow> char" where
  "lowerASCII c = (if CHR ''A'' \<le> c \<and> c \<le> CHR ''Z'' then char_of (of_char c + (32::nat)) else c)"

function ToLower :: "(string \<Rightarrow> string) \<Rightarrow> string \<Rightarrow> string" where
  "ToLower lowU [] = []"
| "ToLower lowU (c # cs) =
     (if isASCII c then lowerASCII c # ToLower lowU cs
      else lowU (c # takeWhile (\<lambda>x. \<not> isASCII x) cs)
             @ ToLower lowU (dropWhile (\<lambda>x. \<not> isASCII x) cs))"
  by pat_completeness auto
termination
  by (relation "measure (\<lambda>(lowU, s). length s)")
     (auto simp: length_dropWhile_le less_Suc_eq_le)

text \<open>\<^verbatim>\<open>strings.Contains\<close>, \<^verbatim>\<open>strings.Index\<close> and \<^verbatim>\<open>strings.LastIndex\<close>; \<open>None\<close> is Go's \<open>-1\<close>.\<close>

fun Contains :: "string \<Rightarrow> string \<Rightarrow> bool" where
  "Contains [] sub = (sub = [])"
| "Contains (c # cs) sub = (prefix sub (c # cs) \<or> Contains cs sub)"

fun Index :: "string \<Rightarrow> string \<Rightarrow> nat option" where
  "Index [] sub = (if sub = [] then Some 0 else None)"
| "Index (c # cs) sub =
     (if prefix sub (c # cs) then Some 0 else map_option Suc (Index cs sub))"

fun LastIndex :: "string \<Rightarrow> string \<Rightarrow> nat option" where
  "LastIndex [] sub = (if sub = [] then Some 0 else None)"
| "LastIndex (c # cs) sub =
     (case LastIndex cs sub of
        Some i \<Rightarrow> Some (Suc i)
      | None \<Rightarrow> if prefix sub (c # cs) then Some 0 else None)"

text \<open>
  \<^verbatim>\<open>strings.ReplaceAll\<close> for a non-empty \<open>old\<close>, the only way the program calls it:
  the non-overlapping occurrences are replaced from left to right.
\<close>

function ReplaceAll :: "string \<Rightarrow> string \<Rightarrow> string \<Rightarrow> string" where
  "ReplaceAll [] old new = []"
| "ReplaceAll (c # cs) old new =
     (if old \<noteq> [] \<and> prefix old (c # cs)
      then new @ ReplaceAll (drop (length old) (c # cs)) old new
      else c # ReplaceAll cs old new)"
  by pat_completeness auto
termination
  by (relation "measure (\<lambda>(s, old, new). length s)") (auto simp: Suc_le_eq)


section \<open>Package strconv\<close>

definition isDigit :: "char \<Rightarrow> bool" where
  "isDigit c = (CHR ''0'' \<le> c \<and> c \<le> CHR ''9'')"

definition digitVal :: "char \<Rightarrow> nat" where
  "digitVal c = of_char c - of_char CHR ''0''"

text \<open>The value of a string of decimal digits, most significant digit first.\<close>

definition decimal :: "string \<Rightarrow> nat" where
  "decimal ds = foldl (\<lambda>n c. n * 10 + digitVal c) 0 ds"

text \<open>
  \<^verbatim>\<open>strconv.Atoi\<close> on a 64-bit platform, as the pair of its two results; the second
  component says that the error is not nil. A syntax error returns 0, a range error the
  nearest end of the \<^verbatim>\<open>int\<close> range.
\<close>

definition Atoi :: "string \<Rightarrow> int \<times> bool" where
  "Atoi s =
     (let neg = (s \<noteq> [] \<and> hd s = CHR ''-'');
          ds = (if s \<noteq> [] \<and> (hd s = CHR ''-'' \<or> hd s = CHR ''+'') then tl s else s);
          n = int (decimal ds)
      in if ds = [] \<or> \<not> list_all isDigit ds then (0, True)
         else if neg then (if n > 2 ^ 63 then (- (2 ^ 63), True) else (- n, False))
         else (if n \<ge> 2 ^ 63 then (2 ^ 63 - 1, True) else (n, False)))"

text \<open>\<^verbatim>\<open>strconv.Itoa\<close>: the decimal digits of an integer, with a minus sign below zero.\<close>

function digits :: "nat \<Rightarrow> string" where
  "digits n = (if n < 10 then [char_of (of_char CHR ''0'' + n)]
               else digits (n div 10) @ [char_of (of_char CHR ''0'' + n mod 10)])"
  by pat_completeness auto
termination
  by (relation "measure id") auto

declare digits.simps [simp del]

definition Itoa :: "int \<Rightarrow> string" where
  "Itoa i = (if i < 0 then CHR ''-'' # digits (nat (- i)) else digits (nat i))"

section \<open>Package regexp\<close>

text \<open>
  The three patterns of the program are sequences of literals, alternations of literals
  and greedy repetitions of a character class, some of them inside a capturing group,
  between an optional \<^verbatim>\<open>^\<close> and \<^verbatim>\<open>$\<close>. Go's matcher returns the leftmost match and, among
  the matches that start there, the one a backtracking search finds first: an alternation
  tries its branches from left to right, a greedy repetition the longest run first.

  Go matches runes, the model bytes. The classes of the three patterns list ASCII
  characters only, or exclude ASCII characters only, and every repetition is followed by
  an ASCII character or by the end of the pattern, so both find the same boundaries.
\<close>

datatype atom =
    Lit string
  | Alt "string list"
  | Rep "char \<Rightarrow> bool" nat "nat option"

datatype item = Bot | Eot | Tok atom | Cap atom

abbreviation Plus :: "(char \<Rightarrow> bool) \<Rightarrow> atom" where
  "Plus cls \<equiv> Rep cls 1 None"

abbreviation Star :: "(char \<Rightarrow> bool) \<Rightarrow> atom" where
  "Star cls \<equiv> Rep cls 0 None"

abbreviation Times :: "nat \<Rightarrow> (char \<Rightarrow> bool) \<Rightarrow> atom" where
  "Times n cls \<equiv> Rep cls n (Some n)"

text \<open>The lengths an atom may consume at the head of \<open>s\<close>, the preferred one first.\<close>

fun choices :: "atom \<Rightarrow> string \<Rightarrow> nat list" where
  "choices (Lit l) s = (if prefix l s then [length l] else [])"
| "choices (Alt ls) s = map length (filter (\<lambda>l. prefix l s) ls)"
| "choices (Rep cls lo hi) s =
     (let n = length (takeWhile cls s);
          m = (case hi of None \<Rightarrow> n | Some h \<Rightarrow> min n h)
      in rev [lo..<Suc m])"

fun first_some :: "('a \<Rightarrow> 'b option) \<Rightarrow> 'a list \<Rightarrow> 'b option" where
  "first_some f [] = None"
| "first_some f (k # ks) = (case f k of Some r \<Rightarrow> Some r | None \<Rightarrow> first_some f ks)"

text \<open>
  \<open>run re pos s\<close> matches the items \<open>re\<close> against \<open>s\<close>, the text from offset \<open>pos\<close> on,
  and returns the captured groups in order with the text left after the match.
\<close>

primrec run :: "item list \<Rightarrow> nat \<Rightarrow> string \<Rightarrow> (string list \<times> string) option" where
  "run [] = (\<lambda>pos s. Some ([], s))"
| "run (i # re) = (\<lambda>pos s.
     case i of
       Bot \<Rightarrow> if pos = 0 then run re pos s else None
     | Eot \<Rightarrow> if s = [] then run re pos s else None
     | Tok a \<Rightarrow> first_some (\<lambda>k. run re (pos + k) (drop k s)) (choices a s)
     | Cap a \<Rightarrow>
         first_some
           (\<lambda>k. map_option (\<lambda>(caps, rest). (take k s # caps, rest)) (run re (pos + k) (drop k s)))
           (choices a s))"

fun find_at :: "item list \<Rightarrow> nat \<Rightarrow> string \<Rightarrow> string list" where
  "find_at re pos [] =
     (case run re pos [] of Some (caps, rest) \<Rightarrow> [] # caps | None \<Rightarrow> [])"
| "find_at re pos (c # cs) =
     (case run re pos (c # cs) of
        Some (caps, rest) \<Rightarrow> take (Suc (length cs) - length rest) (c # cs) # caps
      | None \<Rightarrow> find_at re (Suc pos) cs)"

text \<open>
  \<^verbatim>\<open>(*Regexp).FindStringSubmatch\<close>: the whole match followed by the groups, or the empty
  (nil) slice when nothing matches.
\<close>

definition FindStringSubmatch :: "item list \<Rightarrow> string \<Rightarrow> string list" where
  "FindStringSubmatch re s = find_at re 0 s"

text \<open>
  What the matcher is measured against: the words of an atom and the capturing groups of
  a pattern, from left to right.
\<close>

fun accepts :: "atom \<Rightarrow> string \<Rightarrow> bool" where
  "accepts (Lit l) w = (w = l)"
| "accepts (Alt ls) w = (w \<in> set ls)"
| "accepts (Rep cls lo hi) w =
     (list_all cls w \<and> lo \<le> length w \<and> (case hi of None \<Rightarrow> True | Some h \<Rightarrow> length w \<le> h))"

fun groups :: "item list \<Rightarrow> atom list" where
  "groups [] = []"
| "groups (Cap a # re) = a # groups re"
| "groups (i # re) = groups re"

text \<open>
  \<open>wordOf\<close> says which piece of text an item may match, and \<open>captured\<close> selects the
  pieces of the groups.
\<close>

fun wordOf :: "item \<Rightarrow> string \<Rightarrow> bool" where
  "wordOf Bot w = (w = [])"
| "wordOf Eot w = (w = [])"
| "wordOf (Tok a) w = accepts a w"
| "wordOf (Cap a) w = accepts a w"

fun captured :: "item list \<Rightarrow> string list \<Rightarrow> string list" where
  "captured (Cap a # re) (w # ws) = w # captured re ws"
| "captured (i # re) (w # ws) = captured re ws"
| "captured re ws = []"

text \<open>The character classes \<^verbatim>\<open>\s\<close>, \<^verbatim>\<open>\w\<close>, \<^verbatim>\<open>[A-Za-z ]\<close> and \<^verbatim>\<open>.\<close> of Go's syntax.\<close>

definition reSpace :: "char \<Rightarrow> bool" where
  "reSpace c = (c \<in> {CHR 0x09, CHR 0x0A, CHR 0x0C, CHR 0x0D, CHR 0x20})"

definition isLetter :: "char \<Rightarrow> bool" where
  "isLetter c = ((CHR ''A'' \<le> c \<and> c \<le> CHR ''Z'') \<or> (CHR ''a'' \<le> c \<and> c \<le> CHR ''z''))"

definition reWord :: "char \<Rightarrow> bool" where
  "reWord c = (isDigit c \<or> isLetter c \<or> c = CHR ''_'')"

definition reLetterSpace :: "char \<Rightarrow> bool" where
  "reLetterSpace c = (isLetter c \<or> c = CHR '' '')"

definition reDot :: "char \<Rightarrow> bool" where
  "reDot c = (c \<noteq> CHR 0x0A)"


section \<open>Floating point: the retry delay\<close>

text \<open>
  The only \<^verbatim>\<open>float64\<close> values of the program come from \<^verbatim>\<open>strconv.ParseFloat\<close> on an
  unsigned decimal literal, \<^verbatim>\<open>math.Round\<close> and a multiplication by \<open>1e9\<close>: they are the
  non-negative binary64 numbers, kept as exact rationals, and \<open>+Inf\<close>.
\<close>

datatype float64 = Fin rat | PInf

definition roundEven :: "rat \<Rightarrow> int" where
  "roundEven x =
     (let f = \<lfloor>x\<rfloor>; d = x - of_int f
      in if d < 1 / 2 then f else if 1 / 2 < d then f + 1 else if even f then f else f + 1)"

text \<open>\<open>ilog2 q\<close> is the binary exponent of \<open>q > 0\<close>: \<open>2 powi ilog2 q \<le> q < 2 powi (ilog2 q + 1)\<close>.\<close>

definition ilog2 :: "rat \<Rightarrow> int" where
  "ilog2 q =
     (let (a, b) = quotient_of q; d = bitlen a - bitlen b
      in if 2 powi d \<le> q then d else d - 1)"

text \<open>
  IEEE 754 rounding of a non-negative rational to binary64, ties to even: 53 significant
  bits, the spacing of the subnormal numbers below \<open>2 powi (-1022)\<close>, and \<open>+Inf\<close> when the
  rounded value passes the largest finite number.
\<close>

definition toFloat64 :: "rat \<Rightarrow> float64" where
  "toFloat64 q =
     (if q = 0 then Fin 0
      else let e = max (ilog2 q) (- 1022);
               u = 2 powi (e - 52);
               r = of_int (roundEven (q / u)) * u
           in if 2 ^ 1024 \<le> r then PInf else Fin r)"

text \<open>
  \<^verbatim>\<open>strconv.ParseFloat(s, 64)\<close> for a string of digits and dots, which is all that the
  group \<^verbatim>\<open>([0-9.]+)\<close> lets through: digits with at most one dot and a digit on at least one
  side of it are a number and are rounded correctly; anything else is a syntax error with
  result 0. A literal beyond the range gives \<open>+Inf\<close> and a range error.
\<close>

definition decimalLiteral :: "string \<Rightarrow> rat option" where
  "decimalLiteral s =
     (let intPart = takeWhile isDigit s; rest = dropWhile isDigit s
      in case rest of
           [] \<Rightarrow> if intPart = [] then None else Some (of_nat (decimal intPart))
         | c # fracPart \<Rightarrow>
             if c = CHR ''.'' \<and> list_all isDigit fracPart \<and> (intPart \<noteq> [] \<or> fracPart \<noteq> [])
             then Some (of_nat (decimal (intPart @ fracPart)) / 10 ^ length fracPart)
             else None)"

definition ParseFloat :: "string \<Rightarrow> float64 \<times> bool" where
  "ParseFloat s =
     (case decimalLiteral s of
        None \<Rightarrow> (Fin 0, True)
      | Some q \<Rightarrow> (toFloat64 q, toFloat64 q = PInf))"

text \<open>\<^verbatim>\<open>math.Round\<close>: the nearest integer, halves away from zero (here: upwards).\<close>

definition Round :: "float64 \<Rightarrow> float64" where
  "Round x = (case x of Fin q \<Rightarrow> Fin (of_int \<lfloor>q + 1 / 2\<rfloor>) | PInf \<Rightarrow> PInf)"

definition positive :: "float64 \<Rightarrow> bool" where
  "positive x = (case x of Fin q \<Rightarrow> 0 < q | PInf \<Rightarrow> True)"

type_synonym Duration = "64 word"

definition Millisecond :: Duration where
  "Millisecond = 1000000"

definition Second :: Duration where
  "Second = 1000000000"

text \<open>
  \<^verbatim>\<open>time.Duration(sec * float64(time.Second))\<close>: the product is rounded to binary64 and
  then truncated to an \<^verbatim>\<open>int64\<close>. Go leaves the conversion of a value outside the range of
  \<^verbatim>\<open>int64\<close> to the implementation; \<open>0x8000000000000000\<close> is what amd64 returns.
\<close>

definition secondsToDuration :: "float64 \<Rightarrow> Duration" where
  "secondsToDuration sec =
     (case (case sec of Fin q \<Rightarrow> toFloat64 (q * 1000000000) | PInf \<Rightarrow> PInf) of
        Fin ns \<Rightarrow> if ns < 2 ^ 63 then word_of_int \<lfloor>ns\<rfloor> else 0x8000000000000000
      | PInf \<Rightarrow> 0x8000000000000000)"

section \<open>The error record and its classifiers\<close>

record OpenAIRateInfo =
  Model :: string
  ScopeType :: string
  ScopeID :: string
  Metric :: string
  Limit :: int
  Used :: int
  Requested :: int
  RetryAfter :: Duration
  DocsURL :: string

record OpenAIError =
  Method :: string
  URL :: string
  Status :: int
  Reason :: string
  Message :: string
  Type :: string
  Param :: "string option"
  Code :: string
  RateInfo :: "OpenAIRateInfo option"

text \<open>
  The methods have a pointer receiver that may be nil: \<open>None\<close> is the nil pointer.
\<close>

definition Error :: "OpenAIError option \<Rightarrow> string" where
  "Error e =
     (case e of
        None \<Rightarrow> ''<nil>''
      | Some e \<Rightarrow> Method e @ '' '' @ URL e @ '': '' @ Itoa (Status e) @ '' '' @ Reason e
                   @ '' - '' @ Message e)"

definition IsRateLimit :: "(string \<Rightarrow> string) \<Rightarrow> OpenAIError option \<Rightarrow> bool" where
  "IsRateLimit lowU e =
     (case e of
        None \<Rightarrow> False
      | Some e \<Rightarrow>
          if Status e = 429 then True
          else if Code e = ''rate_limit_exceeded'' then True
          else Contains (ToLower lowU (Message e)) ''rate limit'')"

definition IsAuth :: "OpenAIError option \<Rightarrow> bool" where
  "IsAuth e =
     (case e of
        None \<Rightarrow> False
      | Some e \<Rightarrow>
          if Status e = 401 \<or> Status e = 403 then True
          else Code e \<in> {''invalid_api_key'', ''invalid_api_key_header'',
                         ''account_deactivated'', ''organization_deactivated''})"

definition IsServerError :: "OpenAIError option \<Rightarrow> bool" where
  "IsServerError e =
     (case e of None \<Rightarrow> False | Some e \<Rightarrow> 500 \<le> Status e \<and> Status e \<le> 599)"


section \<open>The two parsers\<close>

datatype error = errorString string

text \<open>
  \<^verbatim>\<open>^(GET|POST|PUT|PATCH|DELETE)\s+"([^"]+)"\s*:\s*(\d{3})\s+([A-Za-z ]+)\s+\<close>
\<close>

definition jsonHeadRe :: "item list" where
  "jsonHeadRe =
     [Bot, Cap (Alt [''GET'', ''POST'', ''PUT'', ''PATCH'', ''DELETE'']), Tok (Plus reSpace),
      Tok (Lit [CHR 0x22]), Cap (Plus (\<lambda>c. c \<noteq> CHR 0x22)), Tok (Lit [CHR 0x22]),
      Tok (Star reSpace), Tok (Lit '':''), Tok (Star reSpace), Cap (Times 3 isDigit),
      Tok (Plus reSpace), Cap (Plus reLetterSpace), Tok (Plus reSpace)]"

text \<open>
  \<^verbatim>\<open>^(GET|POST|PUT|PATCH|DELETE)\s+(\S+):\s+(\d{3})\s+([A-Za-z ]+)\s+-\s+(.*)$\<close>
\<close>

definition plainHeadRe :: "item list" where
  "plainHeadRe =
     [Bot, Cap (Alt [''GET'', ''POST'', ''PUT'', ''PATCH'', ''DELETE'']), Tok (Plus reSpace),
      Cap (Plus (\<lambda>c. \<not> reSpace c)), Tok (Lit '':''), Tok (Plus reSpace),
      Cap (Times 3 isDigit), Tok (Plus reSpace), Cap (Plus reLetterSpace), Tok (Plus reSpace),
      Tok (Lit ''-''), Tok (Plus reSpace), Cap (Star reDot), Eot]"

text \<open>
  \<^verbatim>\<open>Rate limit reached for ([\w\-.]+) in (organization|project) ([\w-]+) on ([^:]+): Limit (\d+), Used (\d+), Requested (\d+)\. Please try again in ([0-9.]+)s\. Visit (\S+)\<close>
\<close>

definition rateRe :: "item list" where
  "rateRe =
     [Tok (Lit ''Rate limit reached for ''),
      Cap (Plus (\<lambda>c. reWord c \<or> c = CHR ''-'' \<or> c = CHR ''.'')),
      Tok (Lit '' in ''), Cap (Alt [''organization'', ''project'']), Tok (Lit '' ''),
      Cap (Plus (\<lambda>c. reWord c \<or> c = CHR ''-'')),
      Tok (Lit '' on ''), Cap (Plus (\<lambda>c. c \<noteq> CHR '':'')),
      Tok (Lit '': Limit ''), Cap (Plus isDigit),
      Tok (Lit '', Used ''), Cap (Plus isDigit),
      Tok (Lit '', Requested ''), Cap (Plus isDigit),
      Tok (Lit ''. Please try again in ''), Cap (Plus (\<lambda>c. isDigit c \<or> c = CHR ''.'')),
      Tok (Lit ''s. Visit ''), Cap (Plus (\<lambda>c. \<not> reSpace c))]"

text \<open>
  Both parsers build the rate information from the nine groups of \<open>rateRe\<close> in the same
  way, but for the delay: the plain parser rounds a positive number of seconds with
  \<^verbatim>\<open>math.Round\<close> first (\<open>rounded\<close>). The errors of \<^verbatim>\<open>Atoi\<close> and \<^verbatim>\<open>ParseFloat\<close> are dropped.
\<close>

definition rateInfoOf :: "bool \<Rightarrow> string list \<Rightarrow> OpenAIRateInfo" where
  "rateInfoOf rounded rm =
     (let limit = fst (Atoi (rm ! 5));
          used = fst (Atoi (rm ! 6));
          req = fst (Atoi (rm ! 7));
          sec0 = fst (ParseFloat (rm ! 8));
          sec = (if rounded \<and> positive sec0 then Round sec0 else sec0)
      in \<lparr>Model = rm ! 1, ScopeType = rm ! 2, ScopeID = rm ! 3, Metric = TrimSpace (rm ! 4),
          Limit = limit, Used = used, Requested = req,
          RetryAfter = secondsToDuration sec, DocsURL = rm ! 9\<rparr>)"

text \<open>
  The anonymous struct \<open>shell\<close> that the body is decoded into. \<^verbatim>\<open>json.Unmarshal\<close> belongs to
  Go's library, not to the program: the JSON parser takes it as the argument \<open>um\<close>, which
  maps the text and the struct it writes into to the struct afterwards and the error.
\<close>

record innerErr =
  in_Message :: string
  in_Type :: string
  in_Param :: "string option"
  in_Code :: string

record shell =
  sh_Error :: "innerErr option"
  sh_Message :: string
  sh_Type :: string
  sh_Param :: "string option"
  sh_Code :: string

type_synonym unmarshal = "string \<Rightarrow> shell \<Rightarrow> shell \<times> error option"

definition shell0 :: shell where
  "shell0 = \<lparr>sh_Error = None, sh_Message = [], sh_Type = [], sh_Param = None, sh_Code = []\<rparr>"

text \<open>
  Step 2 of \<^verbatim>\<open>ParseOpenAIJsonError\<close>: the text from the first \<open>{\<close> of the trimmed input on,
  trimmed, with backslash-n and backslash-t turned into a line feed and a tab.
\<close>

definition jsonPartOf :: "string \<Rightarrow> string option" where
  "jsonPartOf raw =
     (case Index raw ''{'' of
        None \<Rightarrow> None
      | Some i \<Rightarrow>
          Some (ReplaceAll (ReplaceAll (TrimSpace (drop i raw)) [CHR 0x5C, CHR ''n''] [CHR 0x0A])
                  [CHR 0x5C, CHR ''t''] [CHR 0x09]))"

text \<open>
  Step 3: the body is decoded; after an error the text up to its last \<open>}\<close> is decoded
  into the same struct, unless that brace is missing or is the first byte. \<open>None\<close> is the
  way out through the two early returns.
\<close>

definition decodeBody :: "unmarshal \<Rightarrow> string \<Rightarrow> shell option" where
  "decodeBody um jsonPart =
     (case um jsonPart shell0 of
        (sh, None) \<Rightarrow> Some sh
      | (sh, Some err) \<Rightarrow>
          (case LastIndex jsonPart ''}'' of
             None \<Rightarrow> None
           | Some lastBrace \<Rightarrow>
               if 0 < lastBrace
               then (case um (take (lastBrace + 1) jsonPart) sh of
                       (sh2, None) \<Rightarrow> Some sh2
                     | (sh2, Some err2) \<Rightarrow> None)
               else None))"

definition fillFromShell :: "shell \<Rightarrow> OpenAIError \<Rightarrow> OpenAIError" where
  "fillFromShell sh e =
     (case sh_Error sh of
        Some inner \<Rightarrow> e\<lparr>Message := in_Message inner, Type := in_Type inner,
                         Param := in_Param inner, Code := in_Code inner\<rparr>
      | None \<Rightarrow> e\<lparr>Message := sh_Message sh, Type := sh_Type sh,
                    Param := sh_Param sh, Code := sh_Code sh\<rparr>)"

text \<open>Step 1: the record filled from the four groups of the header.\<close>

definition jsonHeader :: "string list \<Rightarrow> OpenAIError" where
  "jsonHeader m =
     \<lparr>Method = m ! 1, URL = m ! 2,
      Status = (case Atoi (m ! 3) of (s, err) \<Rightarrow> if \<not> err then s else 0),
      Reason = TrimSpace (m ! 4), Message = [], Type = [], Param = None, Code = [],
      RateInfo = None\<rparr>"

text \<open>Step 4: the rate information, when the message matches \<open>rateRe\<close>.\<close>

definition rateLimitDetails :: "OpenAIError \<Rightarrow> OpenAIError" where
  "rateLimitDetails e =
     (let rm = FindStringSubmatch rateRe (Message e)
      in if length rm = 10 then e\<lparr>RateInfo := Some (rateInfoOf False rm)\<rparr> else e)"

text \<open>The default code of lines 182 to 185.\<close>

definition defaultCode :: "(string \<Rightarrow> string) \<Rightarrow> OpenAIError \<Rightarrow> OpenAIError" where
  "defaultCode lowU e =
     (if Code e = [] \<and> Status e = 429 \<and> Contains (ToLower lowU (Message e)) ''rate limit''
      then e\<lparr>Code := ''rate_limit_exceeded''\<rparr> else e)"

definition ParseOpenAIJsonError ::
  "unmarshal \<Rightarrow> (string \<Rightarrow> string) \<Rightarrow> string \<Rightarrow> OpenAIError option \<times> error option" where
  "ParseOpenAIJsonError um lowU raw0 =
     (let raw = TrimSpace raw0;
          m = FindStringSubmatch jsonHeadRe raw
      in if length m \<noteq> 5 then (None, Some (errorString ''unrecognized header format''))
         else
           let e = jsonHeader m
           in case jsonPartOf raw of
                None \<Rightarrow> (Some e, None)
              | Some jsonPart \<Rightarrow>
                  (case decodeBody um jsonPart of
                     None \<Rightarrow> (Some (e\<lparr>Message := TrimSpace jsonPart\<rparr>), None)
                   | Some sh \<Rightarrow>
                       (Some (defaultCode lowU (rateLimitDetails (fillFromShell sh e))), None)))"

text \<open>The record of the plain parser, filled from the five groups of its header.\<close>

definition plainHeader :: "string list \<Rightarrow> OpenAIError" where
  "plainHeader m =
     \<lparr>Method = m ! 1, URL = m ! 2, Status = fst (Atoi (m ! 3)), Reason = TrimSpace (m ! 4),
      Message = TrimSpace (m ! 5), Type = [], Param = None, Code = [], RateInfo = None\<rparr>"

text \<open>
  Lines 210 to 251: when the message matches \<open>rateRe\<close>, the rate information with the
  rounded delay, the type guessed from the metric, and the code of a 429.
\<close>

definition plainRateLimitDetails :: "(string \<Rightarrow> string) \<Rightarrow> OpenAIError \<Rightarrow> OpenAIError" where
  "plainRateLimitDetails lowU e =
     (let rm = FindStringSubmatch rateRe (Message e)
      in if length rm = 10
         then
           let ri = rateInfoOf True rm;
               metricLower = ToLower lowU (Metric ri);
               e1 = e\<lparr>RateInfo := Some ri,
                      Type := (if Contains metricLower ''token'' then ''tokens''
                               else if Contains metricLower ''requests'' then ''requests''
                               else [])\<rparr>
           in if Status e1 = 429 \<and> Contains (ToLower lowU (Message e1)) ''rate limit''
              then e1\<lparr>Code := ''rate_limit_exceeded''\<rparr> else e1
         else e)"

definition ParseOpenAIPlainError ::
  "(string \<Rightarrow> string) \<Rightarrow> string \<Rightarrow> OpenAIError option \<times> error option" where
  "ParseOpenAIPlainError lowU raw0 =
     (let raw = TrimSpace raw0;
          m = FindStringSubmatch plainHeadRe raw
      in if length m \<noteq> 6 then (None, Some (errorString ''unrecognized error format''))
         else (Some (plainRateLimitDetails lowU (plainHeader m)), None))"

section \<open>The retry loop of generateJsonContent\<close>

text \<open>
  The loop \<^verbatim>\<open>for range 3\<close> of \<^verbatim>\<open>generateJsonContent\<close> and the check of \<^verbatim>\<open>err\<close> that follows
  it. The request \<^verbatim>\<open>client.Chat.Completions.New\<close> is outside the program: \<open>call i\<close> is
  what the request number \<open>i\<close> returns, \<open>Inl raw\<close> an error whose text is \<open>raw\<close>, \<open>Inr c\<close> a
  completion. The trace counts the requests and records every \<^verbatim>\<open>time.Sleep\<close>.
\<close>

record trace =
  requests :: nat
  sleeps :: "Duration list"

text \<open>
  Lines 443 to 446: the JSON parser, and the plain parser when the first one returns an
  error.
\<close>

definition parseRawError ::
  "unmarshal \<Rightarrow> (string \<Rightarrow> string) \<Rightarrow> string \<Rightarrow> OpenAIError option \<times> error option" where
  "parseRawError um lowU rawError =
     (case ParseOpenAIJsonError um lowU rawError of
        (e, None) \<Rightarrow> (e, None)
      | (e, Some err1) \<Rightarrow> ParseOpenAIPlainError lowU rawError)"

text \<open>
  Lines 447 to 455, what the loop does with the parsed error: it returns when the second
  parser failed too; it sleeps for the advised delay plus 100 ms and goes on when status,
  code and rate information say so; it returns otherwise. \<open>NilDereference\<close> stands for
  the panic of \<^verbatim>\<open>e.Status\<close> on a nil record.
\<close>

datatype decision = Sleep Duration | GiveUp | NilDereference

definition retryDecision :: "unmarshal \<Rightarrow> (string \<Rightarrow> string) \<Rightarrow> string \<Rightarrow> decision" where
  "retryDecision um lowU rawError =
     (case parseRawError um lowU rawError of
        (e, Some err1) \<Rightarrow> GiveUp
      | (None, None) \<Rightarrow> NilDereference
      | (Some e, None) \<Rightarrow>
          (case RateInfo e of
             Some ri \<Rightarrow>
               if Status e = 429 \<and> Code e = ''rate_limit_exceeded''
               then Sleep (RetryAfter ri + 100 * Millisecond)
               else GiveUp
           | None \<Rightarrow> GiveUp))"

text \<open>
  How the loop ends: with a \<^verbatim>\<open>return\<close> of the error, by leaving the loop with the last
  result of the request in hand (\<open>None\<close> before the first request), or with the panic.
\<close>

datatype 'r flow = Return string | Exit "(string + 'r) option" | Panic

fun retryLoop ::
  "unmarshal \<Rightarrow> (string \<Rightarrow> string) \<Rightarrow> (nat \<Rightarrow> string + 'r) \<Rightarrow> nat \<Rightarrow> (string + 'r) option
     \<Rightarrow> trace \<Rightarrow> 'r flow \<times> trace" where
  "retryLoop um lowU call 0 result tr = (Exit result, tr)"
| "retryLoop um lowU call (Suc n) result tr =
     (let tr1 = tr\<lparr>requests := Suc (requests tr)\<rparr>
      in case call (requests tr) of
           Inr completion \<Rightarrow> (Exit (Some (Inr completion)), tr1)
         | Inl rawError \<Rightarrow>
             (case retryDecision um lowU rawError of
                GiveUp \<Rightarrow> (Return rawError, tr1)
              | NilDereference \<Rightarrow> (Panic, tr1)
              | Sleep d \<Rightarrow>
                  retryLoop um lowU call n (Some (Inl rawError))
                    (tr1\<lparr>sleeps := sleeps tr1 @ [d]\<rparr>)))"

datatype 'r outcome = Surfaced string | Proceeds 'r | Panics

definition generateJsonContent ::
  "unmarshal \<Rightarrow> (string \<Rightarrow> string) \<Rightarrow> (nat \<Rightarrow> string + 'r) \<Rightarrow> 'r outcome \<times> trace" where
  "generateJsonContent um lowU call =
     (case retryLoop um lowU call 3 None \<lparr>requests = 0, sleeps = []\<rparr> of
        (Return rawError, tr) \<Rightarrow> (Surfaced rawError, tr)
      | (Exit (Some (Inl rawError)), tr) \<Rightarrow> (Surfaced rawError, tr)
      | (Exit (Some (Inr completion)), tr) \<Rightarrow> (Proceeds completion, tr)
      | (Exit None, tr) \<Rightarrow> (Panics, tr)
      | (Panic, tr) \<Rightarrow> (Panics, tr))"


section \<open>Sample inputs\<close>

text \<open>
  The plain-dialect line of the repository's test \<^verbatim>\<open>TestParseOpenAIError_WrappedJSON\<close>, the
  same line with the status of a server error, and a 429 whose message speaks of the rate
  limit in other words than the rate-limit pattern.
\<close>

definition plainRateLimited :: string where
  "plainRateLimited = ''POST https://api.openai.com/v1/chat/completions: 429 Too Many Requests - Rate limit reached for gpt-4.1 in organization org-YvWUPqaYaDO3IEven3giqHwj on tokens per min (TPM): Limit 30000, Used 30000, Requested 1895. Please try again in 3.789s. Visit https://platform.openai.com/account/rate-limits to learn more.''"

definition rateLimitedMessage :: string where
  "rateLimitedMessage = ''Rate limit reached for gpt-4.1 in organization org-YvWUPqaYaDO3IEven3giqHwj on tokens per min (TPM): Limit 30000, Used 30000, Requested 1895. Please try again in 3.789s. Visit https://platform.openai.com/account/rate-limits to learn more.''"

definition plainServerError :: string where
  "plainServerError = ''POST https://api.openai.com/v1/chat/completions: 500 Internal Server Error - Rate limit reached for gpt-4.1 in organization org-YvWUPqaYaDO3IEven3giqHwj on tokens per min (TPM): Limit 30000, Used 30000, Requested 1895. Please try again in 3.789s. Visit https://platform.openai.com/account/rate-limits to learn more.''"

definition plainOtherWording :: string where
  "plainOtherWording = ''POST https://api.openai.com/v1/chat/completions: 429 Too Many Requests - You exceeded your rate limit, slow down.''"

text \<open>
  A JSON-dialect line: a 429 whose body has a message that speaks of the rate limit and a
  code of its own; \<open>quotaShell\<close> is the struct that the body decodes to.
\<close>

definition quoted :: "string \<Rightarrow> string" where
  "quoted s = CHR 0x22 # s @ [CHR 0x22]"

definition jsonQuotaBody :: string where
  "jsonQuotaBody = ''{'' @ quoted ''message'' @ '': '' @ quoted ''You exceeded your rate limit''
     @ '', '' @ quoted ''code'' @ '': '' @ quoted ''insufficient_quota'' @ ''}''"

definition jsonQuota :: string where
  "jsonQuota = ''POST '' @ quoted ''https://api.openai.com/v1/chat/completions''
     @ '': 429 Too Many Requests '' @ jsonQuotaBody"

definition quotaShell :: shell where
  "quotaShell = \<lparr>sh_Error = None, sh_Message = ''You exceeded your rate limit'', sh_Type = [],
     sh_Param = None, sh_Code = ''insufficient_quota''\<rparr>"

text \<open>
  The same line without a code in its body, and the struct that this body decodes to.
\<close>

definition jsonNoCodeBody :: string where
  "jsonNoCodeBody = ''{'' @ quoted ''message'' @ '': '' @ quoted ''You exceeded your rate limit''
     @ ''}''"

definition jsonNoCode :: string where
  "jsonNoCode = ''POST '' @ quoted ''https://api.openai.com/v1/chat/completions''
     @ '': 429 Too Many Requests '' @ jsonNoCodeBody"

definition noCodeShell :: shell where
  "noCodeShell = \<lparr>sh_Error = None, sh_Message = ''You exceeded your rate limit'', sh_Type = [],
     sh_Param = None, sh_Code = []\<rparr>"

text \<open>
  The same line with text after the closing brace of the body, and a line whose body
  was cut off before any closing brace.
\<close>

definition jsonQuotaTrailing :: string where
  "jsonQuotaTrailing = jsonQuota @ '' (request req_42)''"

definition jsonCutOff :: string where
  "jsonCutOff = ''POST '' @ quoted ''https://api.openai.com/v1/chat/completions''
     @ '': 502 Bad Gateway {'' @ quoted ''message'' @ '': '' @ [CHR 0x22] @ ''Upstream err''"

text \<open>A line with a brace in its URL and nothing after the reason phrase.\<close>

definition jsonBraceInURL :: string where
  "jsonBraceInURL = ''GET '' @ quoted ''https://api.openai.com/v1/files/{file_id}''
     @ '': 404 Not Found''"

text \<open>
  Decoders to instantiate \<open>um\<close> with at a concrete input: one that rejects every text, and
  one that knows the decoding of a single text and rejects the others.
\<close>

definition rejectAll :: unmarshal where
  "rejectAll s sh = (sh, Some (errorString ''invalid character''))"

definition decodesTo :: "string \<Rightarrow> shell \<Rightarrow> unmarshal" where
  "decodesTo text result s sh =
     (if s = text then (result, None) else (sh, Some (errorString ''invalid character'')))"

section \<open>Facts about the string functions\<close>

lemma Contains_iff: "Contains s sub \<longleftrightarrow> (\<exists>a b. s = a @ sub @ b)"
proof (induction s)
  case Nil
  then show ?case by auto
next
  case (Cons c cs)
  show ?case
  proof
    assume "Contains (c # cs) sub"
    then consider "prefix sub (c # cs)" | "Contains cs sub" by auto
    then show "\<exists>a b. c # cs = a @ sub @ b"
    proof cases
      case 1
      then obtain b where "c # cs = sub @ b" by (auto simp: prefix_def)
      then have "c # cs = [] @ sub @ b" by simp
      then show ?thesis by blast
    next
      case 2
      with Cons.IH obtain a b where "cs = a @ sub @ b" by blast
      then have "c # cs = (c # a) @ sub @ b" by simp
      then show ?thesis by blast
    qed
  next
    assume "\<exists>a b. c # cs = a @ sub @ b"
    then obtain a b where ab: "c # cs = a @ sub @ b" by blast
    show "Contains (c # cs) sub"
    proof (cases a)
      case Nil
      with ab have "prefix sub (c # cs)" by (simp add: prefix_def)
      then show ?thesis by simp
    next
      case (Cons x xs)
      with ab have "cs = xs @ sub @ b" by simp
      with Cons.IH have "Contains cs sub" by blast
      then show ?thesis by simp
    qed
  qed
qed

lemma takeWhile_stop:
  "\<not> P c \<Longrightarrow> takeWhile P (xs @ c # b) = takeWhile P xs"
  by (induction xs) auto

lemma dropWhile_stop:
  "\<not> P c \<Longrightarrow> dropWhile P (xs @ c # b) = dropWhile P xs @ c # b"
  by (induction xs) auto

text \<open>An ASCII byte is lowered on its own, whatever stands before and after it.\<close>

lemma ToLower_append_ascii:
  "isASCII c \<Longrightarrow> ToLower lowU (a @ c # b) = ToLower lowU a @ lowerASCII c # ToLower lowU b"
proof (induction lowU a rule: ToLower.induct)
  case (1 lowU)
  then show ?case by simp
next
  case (2 lowU x xs)
  show ?case
  proof (cases "isASCII x")
    case True
    with 2 show ?thesis by simp
  next
    case False
    from False 2 show ?thesis by (simp add: takeWhile_stop dropWhile_stop)
  qed
qed

lemma ToLower_ascii_prefix:
  "list_all isASCII w \<Longrightarrow> ToLower lowU (w @ b) = map lowerASCII w @ ToLower lowU b"
  by (induction w) auto

lemma ToLower_ascii_word:
  assumes "list_all isASCII w" and "w \<noteq> []"
  shows "ToLower lowU (a @ w @ b) = ToLower lowU a @ map lowerASCII w @ ToLower lowU b"
proof -
  from assms obtain c w' where w: "w = c # w'" and c: "isASCII c" and w': "list_all isASCII w'"
    by (cases w) auto
  have "ToLower lowU (a @ c # (w' @ b)) = ToLower lowU a @ lowerASCII c # ToLower lowU (w' @ b)"
    using c by (rule ToLower_append_ascii)
  with w w' show ?thesis by (simp add: ToLower_ascii_prefix)
qed

lemma ToLower_Rate_limit:
  "Contains (ToLower lowU (a @ ''Rate limit'' @ b)) ''rate limit''"
proof -
  have "ToLower lowU (a @ ''Rate limit'' @ b)
          = ToLower lowU a @ map lowerASCII ''Rate limit'' @ ToLower lowU b"
    by (rule ToLower_ascii_word) (simp_all add: isASCII_def)
  also have "map lowerASCII ''Rate limit'' = ''rate limit''"
    by code_simp
  finally show ?thesis unfolding Contains_iff by blast
qed

section \<open>Facts about trimming\<close>

lemma unicodeSpace_bytes:
  "p \<in> set unicodeSpace \<Longrightarrow> p \<noteq> [] \<and> (\<forall>c\<in>set p. \<not> isASCII c)"
  by (auto simp: unicodeSpace_def isASCII_def)

lemma spaceLen_ascii:
  assumes "isASCII c" and "\<not> asciiSpace c"
  shows "spaceLen (c # t) = 0"
proof -
  have "\<not> (\<exists>p\<in>set unicodeSpace. prefix p (c # t))"
  proof
    assume "\<exists>p\<in>set unicodeSpace. prefix p (c # t)"
    then obtain p where p: "p \<in> set unicodeSpace" "prefix p (c # t)" by blast
    with unicodeSpace_bytes [of p] obtain q where "p = c # q"
      by (cases p) (auto simp: prefix_def)
    with p(1) unicodeSpace_bytes [of p] assms(1) show False by auto
  qed
  then have "find (\<lambda>p. prefix p (c # t)) unicodeSpace = None"
    by (simp add: find_None_iff)
  with assms(2) show ?thesis by (simp add: spaceLen_def)
qed

lemma TrimLeftSpace_ascii:
  "isASCII c \<Longrightarrow> \<not> asciiSpace c \<Longrightarrow> TrimLeftSpace (c # t) = c # t"
  by (subst TrimLeftSpace.simps) (simp add: spaceLen_ascii)

text \<open>What \<open>spaceLenEnd\<close> cuts off is a white-space rune at the end.\<close>

lemma spaceLenEnd_suffix:
  assumes "spaceLenEnd s \<noteq> 0"
  shows "\<exists>p. suffix p s \<and> length p = spaceLenEnd s
           \<and> ((\<exists>a. p = [a] \<and> asciiSpace a) \<or> p \<in> set unicodeSpace)"
proof (cases "s = []")
  case True
  with assms show ?thesis by (simp add: spaceLenEnd_def)
next
  case False
  then obtain t a where s: "s = t @ [a]" by (metis rev_exhaust)
  show ?thesis
  proof (cases "asciiSpace a")
    case True
    with s have "spaceLenEnd s = 1" by (simp add: spaceLenEnd_def)
    moreover have "suffix [a] s" using s by (simp add: suffix_def)
    ultimately show ?thesis using True by auto
  next
    case False
    with assms s obtain p where f: "find (\<lambda>p. suffix p s) unicodeSpace = Some p"
      and l: "spaceLenEnd s = length p"
      by (auto simp: spaceLenEnd_def split: option.splits)
    from f have "p \<in> set unicodeSpace" "suffix p s"
      by (auto simp: find_Some_iff)
    with l show ?thesis by auto
  qed
qed

lemma TrimRightSpace_keeps_head:
  "isASCII c \<Longrightarrow> \<not> asciiSpace c \<Longrightarrow> \<exists>t'. TrimRightSpace (c # t) = c # t'"
proof (induction "c # t" arbitrary: t rule: TrimRightSpace.induct)
  case 1
  show ?case
  proof (cases "spaceLenEnd (c # t) = 0")
    case True
    then show ?thesis by (subst TrimRightSpace.simps) simp
  next
    case False
    from spaceLenEnd_suffix [OF False] obtain p where p: "suffix p (c # t)"
      "length p = spaceLenEnd (c # t)"
      "(\<exists>a. p = [a] \<and> asciiSpace a) \<or> p \<in> set unicodeSpace" by blast
    have "p \<noteq> c # t"
    proof
      assume "p = c # t"
      with p(3) unicodeSpace_bytes [of p] 1(2,3) show False by auto
    qed
    with p(1) have "suffix p t" by (auto simp: suffix_Cons)
    then have "length p \<le> length t" by (rule suffix_length_le)
    then have "take (length (c # t) - spaceLenEnd (c # t)) (c # t)
                 = c # take (length t - length p) t"
      using p(2) by (simp add: Suc_diff_le)
    with 1(1) [OF False _ 1(2,3)] False show ?thesis
      by (subst TrimRightSpace.simps) simp
  qed
qed

lemma TrimSpace_keeps_head:
  "isASCII c \<Longrightarrow> \<not> asciiSpace c \<Longrightarrow> \<exists>t'. TrimSpace (c # t) = c # t'"
  by (simp add: TrimSpace_def TrimLeftSpace_ascii TrimRightSpace_keeps_head)

lemma ReplaceAll_keeps_head:
  "old \<noteq> [] \<Longrightarrow> hd old \<noteq> c \<Longrightarrow> \<exists>t'. ReplaceAll (c # t) old new = c # t'"
  by (cases old) simp_all

lemma Index_first:
  "c \<notin> set a \<Longrightarrow> Index (a @ c # b) [c] = Some (length a)"
  by (induction a) auto

section \<open>Facts about the matcher\<close>

lemma first_some_Some:
  "first_some f ks = Some r \<Longrightarrow> \<exists>k\<in>set ks. f k = Some r"
  by (induction ks) (auto split: option.splits)

lemma first_some_None:
  "(\<And>k. k \<in> set ks \<Longrightarrow> f k = None) \<Longrightarrow> first_some f ks = None"
  by (induction ks) auto

lemma first_some_skip:
  "f k = None \<Longrightarrow> first_some f (k # ks) = first_some f ks"
  by simp

lemma first_some_hit:
  "f k = Some r \<Longrightarrow> first_some f (k # ks) = Some r"
  by simp

lemma choices_sound:
  "k \<in> set (choices a s) \<Longrightarrow> k \<le> length s \<and> accepts a (take k s)"
proof (cases a)
  case (Lit l)
  assume "k \<in> set (choices a s)"
  with Lit show ?thesis by (auto simp: prefix_def split: if_splits)
next
  case (Alt ls)
  assume "k \<in> set (choices a s)"
  with Alt obtain l where "l \<in> set ls" "prefix l s" "k = length l" by auto
  with Alt show ?thesis by (auto simp: prefix_def)
next
  case (Rep cls lo hi)
  assume k: "k \<in> set (choices a s)"
  let ?n = "length (takeWhile cls s)"
  from k Rep have kn: "lo \<le> k" "k \<le> ?n" and kh: "case hi of None \<Rightarrow> True | Some h \<Rightarrow> k \<le> h"
    by (auto simp: Let_def split: option.splits)
  have n: "?n \<le> length s" by (rule length_takeWhile_le)
  have "take k s = take k (takeWhile cls s)"
    using kn by (metis takeWhile_dropWhile_id take_append diff_is_0_eq take_0 append_Nil2)
  then have "set (take k s) \<subseteq> set (takeWhile cls s)" by (metis set_take_subset)
  then have "list_all cls (take k s)" by (auto simp: list_all_iff dest: set_takeWhileD)
  with kn kh n Rep show ?thesis by (auto split: option.splits)
qed

lemma run_sound:
  "run re pos s = Some (caps, rest) \<Longrightarrow>
     suffix rest s \<and> list_all2 accepts (groups re) caps"
proof (induction re arbitrary: pos s caps rest)
  case Nil
  then show ?case by simp
next
  case (Cons i re)
  show ?case
  proof (cases i)
    case Bot
    with Cons.prems have "run re pos s = Some (caps, rest)" by (simp split: if_splits)
    with Cons.IH Bot show ?thesis by simp
  next
    case Eot
    with Cons.prems have "run re pos s = Some (caps, rest)" by (simp split: if_splits)
    with Cons.IH Eot show ?thesis by simp
  next
    case (Tok a)
    with Cons.prems obtain k where k: "k \<in> set (choices a s)"
      and r: "run re (pos + k) (drop k s) = Some (caps, rest)"
      by (auto dest!: first_some_Some)
    from Cons.IH [OF r] have "suffix rest (drop k s)" "list_all2 accepts (groups re) caps"
      by simp_all
    with Tok show ?thesis by (auto intro: suffix_order.trans suffix_drop)
  next
    case (Cap a)
    with Cons.prems obtain k where k: "k \<in> set (choices a s)"
      and r: "map_option (\<lambda>(caps, rest). (take k s # caps, rest)) (run re (pos + k) (drop k s))
                = Some (caps, rest)"
      by (auto dest!: first_some_Some)
    then obtain caps' where c: "caps = take k s # caps'"
      and r': "run re (pos + k) (drop k s) = Some (caps', rest)"
      by auto
    from Cons.IH [OF r'] have "suffix rest (drop k s)" "list_all2 accepts (groups re) caps'"
      by simp_all
    with Cap c choices_sound [OF k] show ?thesis
      by (auto intro: suffix_order.trans suffix_drop)
  qed
qed

lemma find_at_sound:
  "find_at re pos s \<noteq> [] \<Longrightarrow>
     \<exists>a s' caps rest. s = a @ s' \<and> run re (pos + length a) s' = Some (caps, rest)
        \<and> find_at re pos s = take (length s' - length rest) s' # caps"
proof (induction re pos s rule: find_at.induct)
  case (1 re pos)
  then obtain caps rest where "run re pos [] = Some (caps, rest)"
    by (auto split: option.splits)
  then show ?case by auto
next
  case (2 re pos c cs)
  show ?case
  proof (cases "run re pos (c # cs)")
    case None
    with 2 obtain a s' caps rest where "cs = a @ s'"
       "run re (Suc pos + length a) s' = Some (caps, rest)"
       "find_at re (Suc pos) cs = take (length s' - length rest) s' # caps"
      by auto
    with None have "c # cs = (c # a) @ s' \<and> run re (pos + length (c # a)) s' = Some (caps, rest)
        \<and> find_at re pos (c # cs) = take (length s' - length rest) s' # caps"
      by simp
    then show ?thesis by blast
  next
    case (Some x)
    obtain caps rest where "x = (caps, rest)" by (cases x)
    with Some have "c # cs = [] @ (c # cs) \<and> run re (pos + length ([]::string)) (c # cs) = Some (caps, rest)
        \<and> find_at re pos (c # cs) = take (length (c # cs) - length rest) (c # cs) # caps"
      by simp
    then show ?thesis by blast
  qed
qed

lemma find_at_length:
  "find_at re pos s = [] \<or> length (find_at re pos s) = Suc (length (groups re))"
proof (cases "find_at re pos s = []")
  case True
  then show ?thesis by simp
next
  case False
  from find_at_sound [OF False] obtain a s' caps rest where
    "s = a @ s'" "run re (pos + length a) s' = Some (caps, rest)"
    "find_at re pos s = take (length s' - length rest) s' # caps" by blast
  with run_sound [of re "pos + length a" s' caps rest] show ?thesis
    by (auto dest: list_all2_lengthD)
qed

lemma run_Bot: "run (Bot # re) pos s = (if pos = 0 then run re 0 s else None)"
  by simp

lemma find_at_Bot_pos: "0 < pos \<Longrightarrow> find_at (Bot # re) pos s = []"
  by (induction s arbitrary: pos) auto

lemma find_at_Bot:
  "find_at (Bot # re) 0 s =
     (case run re 0 s of Some (caps, rest) \<Rightarrow> take (length s - length rest) s # caps | None \<Rightarrow> [])"
  by (cases s) (auto simp: find_at_Bot_pos split: option.splits)

lemma run_words:
  "run re pos s = Some (caps, rest) \<Longrightarrow>
     \<exists>ws. list_all2 wordOf re ws \<and> s = concat ws @ rest \<and> caps = captured re ws"
proof (induction re arbitrary: pos s caps rest)
  case Nil
  then show ?case by simp
next
  case (Cons i re)
  show ?case
  proof (cases i)
    case Bot
    with Cons.prems have "run re pos s = Some (caps, rest)" by (simp split: if_splits)
    from Cons.IH [OF this] obtain ws where
      "list_all2 wordOf re ws" "s = concat ws @ rest" "caps = captured re ws" by blast
    with Bot have "list_all2 wordOf (i # re) ([] # ws) \<and> s = concat ([] # ws) @ rest
        \<and> caps = captured (i # re) ([] # ws)" by simp
    then show ?thesis by blast
  next
    case Eot
    with Cons.prems have "run re pos s = Some (caps, rest)" by (simp split: if_splits)
    from Cons.IH [OF this] obtain ws where
      "list_all2 wordOf re ws" "s = concat ws @ rest" "caps = captured re ws" by blast
    with Eot have "list_all2 wordOf (i # re) ([] # ws) \<and> s = concat ([] # ws) @ rest
        \<and> caps = captured (i # re) ([] # ws)" by simp
    then show ?thesis by blast
  next
    case (Tok a)
    with Cons.prems obtain k where k: "k \<in> set (choices a s)"
      and r: "run re (pos + k) (drop k s) = Some (caps, rest)"
      by (auto dest!: first_some_Some)
    from Cons.IH [OF r] obtain ws where
      ws: "list_all2 wordOf re ws" "drop k s = concat ws @ rest" "caps = captured re ws" by blast
    have "s = take k s @ drop k s" by simp
    with ws have "s = concat (take k s # ws) @ rest" by simp
    with Tok ws choices_sound [OF k]
    have "list_all2 wordOf (i # re) (take k s # ws) \<and> s = concat (take k s # ws) @ rest
        \<and> caps = captured (i # re) (take k s # ws)" by simp
    then show ?thesis by blast
  next
    case (Cap a)
    with Cons.prems obtain k where k: "k \<in> set (choices a s)"
      and r: "map_option (\<lambda>(caps, rest). (take k s # caps, rest)) (run re (pos + k) (drop k s))
                = Some (caps, rest)"
      by (auto dest!: first_some_Some)
    then obtain caps' where c: "caps = take k s # caps'"
      and r': "run re (pos + k) (drop k s) = Some (caps', rest)"
      by auto
    from Cons.IH [OF r'] obtain ws where
      ws: "list_all2 wordOf re ws" "drop k s = concat ws @ rest" "caps' = captured re ws" by blast
    have "s = take k s @ drop k s" by simp
    with ws have "s = concat (take k s # ws) @ rest" by simp
    with Cap ws c choices_sound [OF k]
    have "list_all2 wordOf (i # re) (take k s # ws) \<and> s = concat (take k s # ws) @ rest
        \<and> caps = captured (i # re) (take k s # ws)" by simp
    then show ?thesis by blast
  qed
qed

lemma run_Lit_prefix:
  "run (Tok (Lit l) # re) pos s = Some x \<Longrightarrow> prefix l s"
  by (auto split: if_splits)

lemma rateRe_Rate_limit:
  assumes "FindStringSubmatch rateRe msg \<noteq> []"
  shows "\<exists>a b. msg = a @ ''Rate limit'' @ b"
proof -
  from assms find_at_sound [of rateRe 0 msg] obtain a s' caps rest where
    m: "msg = a @ s'" and r: "run rateRe (0 + length a) s' = Some (caps, rest)"
    by (auto simp: FindStringSubmatch_def)
  from r have "prefix ''Rate limit reached for '' s'"
    unfolding rateRe_def by (rule run_Lit_prefix)
  then obtain b where "s' = ''Rate limit'' @ ('' reached for '' @ b)"
    by (auto simp: prefix_def)
  with m show ?thesis by blast
qed

lemma rateRe_lower:
  "FindStringSubmatch rateRe msg \<noteq> [] \<Longrightarrow> Contains (ToLower lowU msg) ''rate limit''"
  using rateRe_Rate_limit [of msg] ToLower_Rate_limit by auto

lemma groups_jsonHeadRe: "length (groups jsonHeadRe) = 4"
  by (simp add: jsonHeadRe_def)

lemma groups_plainHeadRe: "length (groups plainHeadRe) = 5"
  by (simp add: plainHeadRe_def)

lemma groups_rateRe: "length (groups rateRe) = 9"
  by (simp add: rateRe_def)

lemma jsonHead_length:
  "FindStringSubmatch jsonHeadRe s = [] \<or> length (FindStringSubmatch jsonHeadRe s) = 5"
  using find_at_length [of jsonHeadRe 0 s]
  by (simp add: FindStringSubmatch_def groups_jsonHeadRe)

lemma plainHead_length:
  "FindStringSubmatch plainHeadRe s = [] \<or> length (FindStringSubmatch plainHeadRe s) = 6"
  using find_at_length [of plainHeadRe 0 s]
  by (simp add: FindStringSubmatch_def groups_plainHeadRe)

lemma rateRe_length:
  "FindStringSubmatch rateRe s = [] \<or> length (FindStringSubmatch rateRe s) = 10"
  using find_at_length [of rateRe 0 s]
  by (simp add: FindStringSubmatch_def groups_rateRe)

lemma json_rejects:
  "FindStringSubmatch jsonHeadRe (TrimSpace raw) = [] \<Longrightarrow>
     ParseOpenAIJsonError um lowU raw = (None, Some (errorString ''unrecognized header format''))"
  by (simp add: ParseOpenAIJsonError_def)

lemma json_accepts:
  "FindStringSubmatch jsonHeadRe (TrimSpace raw) \<noteq> [] \<Longrightarrow>
     \<exists>e. ParseOpenAIJsonError um lowU raw = (Some e, None)"
  using jsonHead_length [of "TrimSpace raw"]
  by (auto simp: ParseOpenAIJsonError_def Let_def split: option.splits)

lemma plain_rejects:
  "FindStringSubmatch plainHeadRe (TrimSpace raw) = [] \<Longrightarrow>
     ParseOpenAIPlainError lowU raw = (None, Some (errorString ''unrecognized error format''))"
  by (simp add: ParseOpenAIPlainError_def)

lemma plain_accepts:
  "FindStringSubmatch plainHeadRe (TrimSpace raw) \<noteq> [] \<Longrightarrow>
     \<exists>e. ParseOpenAIPlainError lowU raw = (Some e, None)"
  using plainHead_length [of "TrimSpace raw"]
  by (auto simp: ParseOpenAIPlainError_def Let_def)

section \<open>Facts about the parsers\<close>

lemma fillFromShell_keeps [simp]:
  "Method (fillFromShell sh e) = Method e" "URL (fillFromShell sh e) = URL e"
  "Status (fillFromShell sh e) = Status e" "Reason (fillFromShell sh e) = Reason e"
  "RateInfo (fillFromShell sh e) = RateInfo e"
  by (simp_all add: fillFromShell_def split: option.splits)

lemma rateLimitDetails_keeps [simp]:
  "Method (rateLimitDetails e) = Method e" "URL (rateLimitDetails e) = URL e"
  "Status (rateLimitDetails e) = Status e" "Reason (rateLimitDetails e) = Reason e"
  "Message (rateLimitDetails e) = Message e" "Type (rateLimitDetails e) = Type e"
  "Param (rateLimitDetails e) = Param e" "Code (rateLimitDetails e) = Code e"
  by (simp_all add: rateLimitDetails_def Let_def)

lemma defaultCode_keeps [simp]:
  "Method (defaultCode lowU e) = Method e" "URL (defaultCode lowU e) = URL e"
  "Status (defaultCode lowU e) = Status e" "Reason (defaultCode lowU e) = Reason e"
  "Message (defaultCode lowU e) = Message e" "Type (defaultCode lowU e) = Type e"
  "Param (defaultCode lowU e) = Param e" "RateInfo (defaultCode lowU e) = RateInfo e"
  by (simp_all add: defaultCode_def)

lemma jsonHeader_fields [simp]:
  "Method (jsonHeader m) = m ! 1" "URL (jsonHeader m) = m ! 2"
  "Reason (jsonHeader m) = TrimSpace (m ! 4)" "Message (jsonHeader m) = []"
  "Type (jsonHeader m) = []" "Param (jsonHeader m) = None" "Code (jsonHeader m) = []"
  "RateInfo (jsonHeader m) = None"
  by (simp_all add: jsonHeader_def)

text \<open>The three ways the JSON parser returns a record.\<close>

lemma json_paths:
  assumes "ParseOpenAIJsonError um lowU raw = (Some e, err)"
  shows "length (FindStringSubmatch jsonHeadRe (TrimSpace raw)) = 5 \<and> err = None \<and>
    (let h = jsonHeader (FindStringSubmatch jsonHeadRe (TrimSpace raw))
     in case jsonPartOf (TrimSpace raw) of
          None \<Rightarrow> e = h
        | Some jp \<Rightarrow>
            (case decodeBody um jp of
               None \<Rightarrow> e = h\<lparr>Message := TrimSpace jp\<rparr>
             | Some sh \<Rightarrow> e = defaultCode lowU (rateLimitDetails (fillFromShell sh h))))"
  using assms
  by (auto simp: ParseOpenAIJsonError_def Let_def split: option.splits if_splits)

lemma json_RateInfo:
  assumes "ParseOpenAIJsonError um lowU raw = (Some e, err)" and "RateInfo e \<noteq> None"
  shows "FindStringSubmatch rateRe (Message e) \<noteq> []"
proof -
  from json_paths [OF assms(1)] assms(2) obtain sh where
    e: "e = defaultCode lowU (rateLimitDetails
           (fillFromShell sh (jsonHeader (FindStringSubmatch jsonHeadRe (TrimSpace raw)))))"
    by (auto simp: Let_def split: option.splits)
  let ?f = "fillFromShell sh (jsonHeader (FindStringSubmatch jsonHeadRe (TrimSpace raw)))"
  from e assms(2) have "RateInfo (rateLimitDetails ?f) \<noteq> None" by simp
  then have "length (FindStringSubmatch rateRe (Message ?f)) = 10"
    by (auto simp: rateLimitDetails_def Let_def split: if_splits)
  with e show ?thesis by auto
qed

lemma plainHeader_fields [simp]:
  "Method (plainHeader m) = m ! 1" "URL (plainHeader m) = m ! 2"
  "Status (plainHeader m) = fst (Atoi (m ! 3))" "Reason (plainHeader m) = TrimSpace (m ! 4)"
  "Message (plainHeader m) = TrimSpace (m ! 5)" "Type (plainHeader m) = []"
  "Param (plainHeader m) = None" "Code (plainHeader m) = []" "RateInfo (plainHeader m) = None"
  by (simp_all add: plainHeader_def)

lemma plainRateLimitDetails_keeps [simp]:
  "Method (plainRateLimitDetails lowU e) = Method e"
  "URL (plainRateLimitDetails lowU e) = URL e"
  "Status (plainRateLimitDetails lowU e) = Status e"
  "Reason (plainRateLimitDetails lowU e) = Reason e"
  "Message (plainRateLimitDetails lowU e) = Message e"
  "Param (plainRateLimitDetails lowU e) = Param e"
  by (simp_all add: plainRateLimitDetails_def Let_def)

lemma plainRateLimitDetails_RateInfo:
  "RateInfo e = None \<Longrightarrow>
     (RateInfo (plainRateLimitDetails lowU e) \<noteq> None)
       = (length (FindStringSubmatch rateRe (Message e)) = 10)"
  by (simp add: plainRateLimitDetails_def Let_def)

lemma plainRateLimitDetails_Code:
  "Code e = [] \<Longrightarrow>
     Code (plainRateLimitDetails lowU e)
       = (if length (FindStringSubmatch rateRe (Message e)) = 10 \<and> Status e = 429
             \<and> Contains (ToLower lowU (Message e)) ''rate limit''
          then ''rate_limit_exceeded'' else [])"
  by (simp add: plainRateLimitDetails_def Let_def)

lemma plain_paths:
  assumes "ParseOpenAIPlainError lowU raw = (Some e, err)"
  shows "length (FindStringSubmatch plainHeadRe (TrimSpace raw)) = 6 \<and> err = None \<and>
    e = plainRateLimitDetails lowU (plainHeader (FindStringSubmatch plainHeadRe (TrimSpace raw)))"
  using assms by (auto simp: ParseOpenAIPlainError_def Let_def split: if_splits)

lemma plain_RateInfo:
  assumes "ParseOpenAIPlainError lowU raw = (Some e, err)"
  shows "(RateInfo e \<noteq> None) = (FindStringSubmatch rateRe (Message e) \<noteq> [])"
proof -
  let ?h = "plainHeader (FindStringSubmatch plainHeadRe (TrimSpace raw))"
  from plain_paths [OF assms] have e: "e = plainRateLimitDetails lowU ?h" by simp
  have "(RateInfo e \<noteq> None) = (length (FindStringSubmatch rateRe (Message ?h)) = 10)"
    unfolding e by (rule plainRateLimitDetails_RateInfo) simp
  with rateRe_length [of "Message ?h"] e show ?thesis by auto
qed

lemma plain_result:
  "length (FindStringSubmatch plainHeadRe (TrimSpace raw)) = 6 \<Longrightarrow>
     ParseOpenAIPlainError lowU raw
       = (Some (plainRateLimitDetails lowU
                  (plainHeader (FindStringSubmatch plainHeadRe (TrimSpace raw)))), None)"
  by (simp add: ParseOpenAIPlainError_def Let_def)

lemma json_result:
  assumes "length (FindStringSubmatch jsonHeadRe (TrimSpace raw)) = 5"
    and "jsonPartOf (TrimSpace raw) = Some jp" and "decodeBody um jp = Some sh"
  shows "ParseOpenAIJsonError um lowU raw
       = (Some (defaultCode lowU (rateLimitDetails (fillFromShell sh
                  (jsonHeader (FindStringSubmatch jsonHeadRe (TrimSpace raw)))))), None)"
  using assms by (simp add: ParseOpenAIJsonError_def Let_def)

lemma json_fallback:
  assumes "length (FindStringSubmatch jsonHeadRe (TrimSpace raw)) = 5"
    and "jsonPartOf (TrimSpace raw) = Some jp" and "decodeBody um jp = None"
  shows "ParseOpenAIJsonError um lowU raw
       = (Some ((jsonHeader (FindStringSubmatch jsonHeadRe (TrimSpace raw)))
                  \<lparr>Message := TrimSpace jp\<rparr>), None)"
  using assms by (simp add: ParseOpenAIJsonError_def Let_def)

lemma json_no_body:
  assumes "length (FindStringSubmatch jsonHeadRe (TrimSpace raw)) = 5"
    and "jsonPartOf (TrimSpace raw) = None"
  shows "ParseOpenAIJsonError um lowU raw
       = (Some (jsonHeader (FindStringSubmatch jsonHeadRe (TrimSpace raw))), None)"
  using assms by (simp add: ParseOpenAIJsonError_def Let_def)

lemma fillFromShell_Code:
  "Code (fillFromShell sh e) = (case sh_Error sh of Some inner \<Rightarrow> in_Code inner | None \<Rightarrow> sh_Code sh)"
  "Message (fillFromShell sh e)
     = (case sh_Error sh of Some inner \<Rightarrow> in_Message inner | None \<Rightarrow> sh_Message sh)"
  "Type (fillFromShell sh e) = (case sh_Error sh of Some inner \<Rightarrow> in_Type inner | None \<Rightarrow> sh_Type sh)"
  "Param (fillFromShell sh e)
     = (case sh_Error sh of Some inner \<Rightarrow> in_Param inner | None \<Rightarrow> sh_Param sh)"
  by (simp_all add: fillFromShell_def split: option.splits)

section \<open>Evaluation of the sample inputs\<close>

lemma TrimSpace_rateLimitedMessage: "TrimSpace rateLimitedMessage = rateLimitedMessage"
  by code_simp

lemma rateRe_rateLimitedMessage: "length (FindStringSubmatch rateRe rateLimitedMessage) = 10"
  by code_simp

lemma header_plainRateLimited:
  "FindStringSubmatch plainHeadRe (TrimSpace plainRateLimited) =
     [plainRateLimited, ''POST'', ''https://api.openai.com/v1/chat/completions'', ''429'',
      ''Too Many Requests'', rateLimitedMessage]"
  by code_simp

lemma header_plainServerError:
  "FindStringSubmatch plainHeadRe (TrimSpace plainServerError) =
     [plainServerError, ''POST'', ''https://api.openai.com/v1/chat/completions'', ''500'',
      ''Internal Server Error'', rateLimitedMessage]"
  by code_simp

lemma header_plainOtherWording:
  "FindStringSubmatch plainHeadRe (TrimSpace plainOtherWording) =
     [plainOtherWording, ''POST'', ''https://api.openai.com/v1/chat/completions'', ''429'',
      ''Too Many Requests'', ''You exceeded your rate limit, slow down.'']"
  by code_simp

lemma rateRe_otherWording:
  "FindStringSubmatch rateRe ''You exceeded your rate limit, slow down.'' = []"
  by code_simp

lemma TrimSpace_otherWording:
  "TrimSpace ''You exceeded your rate limit, slow down.''
     = ''You exceeded your rate limit, slow down.''"
  by code_simp

lemma lower_otherWording:
  "Contains (ToLower lowU ''You exceeded your rate limit, slow down.'') ''rate limit''"
proof -
  have "ToLower lowU ''You exceeded your rate limit, slow down.''
          = map lowerASCII ''You exceeded your rate limit, slow down.'' @ ToLower lowU []"
    using ToLower_ascii_prefix [of "''You exceeded your rate limit, slow down.''" lowU "[]"]
    by (simp add: isASCII_def)
  also have "map lowerASCII ''You exceeded your rate limit, slow down.''
          = ''you exceeded your rate limit, slow down.''" by code_simp
  finally have "ToLower lowU ''You exceeded your rate limit, slow down.''
          = ''you exceeded your rate limit, slow down.''" by simp
  moreover have "Contains ''you exceeded your rate limit, slow down.'' ''rate limit''"
    by code_simp
  ultimately show ?thesis by simp
qed

lemma Atoi_429: "Atoi ''429'' = (429, False)"
  by code_simp

lemma Atoi_500: "Atoi ''500'' = (500, False)"
  by code_simp

lemma parse_plainServerError:
  defines "e \<equiv> plainRateLimitDetails id (plainHeader (FindStringSubmatch plainHeadRe (TrimSpace plainServerError)))"
  shows "ParseOpenAIPlainError id plainServerError = (Some e, None)"
    and "Status e = 500" and "Message e = rateLimitedMessage" and "RateInfo e \<noteq> None"
    and "Code e = []"
proof -
  show "ParseOpenAIPlainError id plainServerError = (Some e, None)"
    unfolding e_def by (rule plain_result) (simp add: header_plainServerError)
  show "Status e = 500" by (simp add: e_def header_plainServerError Atoi_500)
  show "Message e = rateLimitedMessage"
    by (simp add: e_def header_plainServerError TrimSpace_rateLimitedMessage)
  show "RateInfo e \<noteq> None"
    unfolding e_def
    by (subst plainRateLimitDetails_RateInfo)
       (simp_all add: header_plainServerError TrimSpace_rateLimitedMessage
          rateRe_rateLimitedMessage)
  show "Code e = []"
    unfolding e_def
    by (subst plainRateLimitDetails_Code) (simp_all add: header_plainServerError Atoi_500)
qed

lemma parse_plainRateLimited:
  defines "e \<equiv> plainRateLimitDetails id (plainHeader (FindStringSubmatch plainHeadRe (TrimSpace plainRateLimited)))"
  shows "ParseOpenAIPlainError id plainRateLimited = (Some e, None)"
    and "Status e = 429" and "Message e = rateLimitedMessage" and "RateInfo e \<noteq> None"
proof -
  show "ParseOpenAIPlainError id plainRateLimited = (Some e, None)"
    unfolding e_def by (rule plain_result) (simp add: header_plainRateLimited)
  show "Status e = 429" by (simp add: e_def header_plainRateLimited Atoi_429)
  show "Message e = rateLimitedMessage"
    by (simp add: e_def header_plainRateLimited TrimSpace_rateLimitedMessage)
  show "RateInfo e \<noteq> None"
    unfolding e_def
    by (subst plainRateLimitDetails_RateInfo)
       (simp_all add: header_plainRateLimited TrimSpace_rateLimitedMessage
          rateRe_rateLimitedMessage)
qed

lemma parse_plainOtherWording:
  "ParseOpenAIPlainError id plainOtherWording =
     (Some \<lparr>Method = ''POST'', URL = ''https://api.openai.com/v1/chat/completions'',
            Status = 429, Reason = ''Too Many Requests'',
            Message = ''You exceeded your rate limit, slow down.'', Type = [], Param = None,
            Code = [], RateInfo = None\<rparr>, None)"
proof -
  have t: "TrimSpace ''Too Many Requests'' = ''Too Many Requests''" by code_simp
  have h: "plainHeader (FindStringSubmatch plainHeadRe (TrimSpace plainOtherWording))
     = \<lparr>Method = ''POST'', URL = ''https://api.openai.com/v1/chat/completions'',
            Status = 429, Reason = ''Too Many Requests'',
            Message = ''You exceeded your rate limit, slow down.'', Type = [], Param = None,
            Code = [], RateInfo = None\<rparr>"
    by (simp add: plainHeader_def header_plainOtherWording Atoi_429 t TrimSpace_otherWording)
  have "ParseOpenAIPlainError id plainOtherWording
     = (Some (plainRateLimitDetails id
                  (plainHeader (FindStringSubmatch plainHeadRe (TrimSpace plainOtherWording)))), None)"
    by (rule plain_result) (simp add: header_plainOtherWording)
  then show ?thesis
    unfolding h by (simp add: plainRateLimitDetails_def rateRe_otherWording)
qed

lemma header_jsonQuota:
  "FindStringSubmatch jsonHeadRe (TrimSpace jsonQuota) =
     [''POST '' @ quoted ''https://api.openai.com/v1/chat/completions'' @ '': 429 Too Many Requests '',
      ''POST'', ''https://api.openai.com/v1/chat/completions'', ''429'', ''Too Many Requests'']"
  by code_simp

lemma body_jsonQuota: "jsonPartOf (TrimSpace jsonQuota) = Some jsonQuotaBody"
  by code_simp

lemma decode_jsonQuota: "decodeBody (decodesTo jsonQuotaBody quotaShell) jsonQuotaBody = Some quotaShell"
  by (simp add: decodeBody_def decodesTo_def)

lemma lower_quota:
  "Contains (ToLower lowU ''You exceeded your rate limit'') ''rate limit''"
proof -
  have "ToLower lowU ''You exceeded your rate limit''
          = map lowerASCII ''You exceeded your rate limit'' @ ToLower lowU []"
    using ToLower_ascii_prefix [of "''You exceeded your rate limit''" lowU "[]"]
    by (simp add: isASCII_def)
  also have "map lowerASCII ''You exceeded your rate limit'' = ''you exceeded your rate limit''"
    by code_simp
  finally have "ToLower lowU ''You exceeded your rate limit'' = ''you exceeded your rate limit''"
    by simp
  moreover have "Contains ''you exceeded your rate limit'' ''rate limit''"
    by code_simp
  ultimately show ?thesis by simp
qed

text \<open>The delay of the sample line: 3.789 s, rounded to 4 s by the plain parser.\<close>

lemma toFloat64_eval:
  assumes "0 < q" and "ilog2 q = e" and "- 1022 \<le> e"
    and "roundEven (q / 2 powi (e - 52)) = m"
    and "of_int m * 2 powi (e - 52) < (2 :: rat) ^ 1024"
  shows "toFloat64 q = Fin (of_int m * 2 powi (e - 52))"
  using assms by (simp add: toFloat64_def Let_def max_def)

lemma ParseFloat_3789:
  "ParseFloat ''3.789'' = (Fin (8532069494053405 / 2251799813685248), False)"
proof -
  have d: "decimalLiteral ''3.789'' = Some (3789 / 1000)"
    by (simp add: decimalLiteral_def isDigit_def decimal_def digitVal_def)
  have i: "ilog2 (3789 / 1000) = 1" by code_simp
  have r: "roundEven (3789 / 1000 / 2 powi (1 - 52)) = 8532069494053405" by code_simp
  have "toFloat64 (3789 / 1000) = Fin (of_int 8532069494053405 * 2 powi (1 - 52))"
    by (rule toFloat64_eval [OF _ i _ r]) (simp_all add: power_int_minus)
  then have "toFloat64 (3789 / 1000) = Fin (8532069494053405 / 2251799813685248)"
    by (simp add: power_int_minus)
  with d show ?thesis by (simp add: ParseFloat_def)
qed

lemma Round_3789: "Round (Fin (8532069494053405 / 2251799813685248)) = Fin 4"
proof -
  have "\<lfloor>(8532069494053405 / 2251799813685248 + 1 / 2 :: rat)\<rfloor> = 4" by code_simp
  then show ?thesis by (simp add: Round_def)
qed

lemma secondsToDuration_4: "secondsToDuration (Fin 4) = 4000000000"
proof -
  have i: "ilog2 4000000000 = 31" by code_simp
  have r: "roundEven (4000000000 / 2 powi (31 - 52)) = 8388608000000000" by code_simp
  have "toFloat64 4000000000 = Fin (of_int 8388608000000000 * 2 powi (31 - 52))"
    by (rule toFloat64_eval [OF _ i _ r]) (simp_all add: power_int_minus)
  then have "toFloat64 (4 * 1000000000) = Fin 4000000000"
    by (simp add: power_int_minus)
  then show ?thesis by (simp add: secondsToDuration_def)
qed

lemma groups_rateLimitedMessage:
  "tl (FindStringSubmatch rateRe rateLimitedMessage) =
     [''gpt-4.1'', ''organization'', ''org-YvWUPqaYaDO3IEven3giqHwj'', ''tokens per min (TPM)'',
      ''30000'', ''30000'', ''1895'', ''3.789'',
      ''https://platform.openai.com/account/rate-limits'']"
  by code_simp

lemma rateInfoOf_rateLimitedMessage:
  "rateInfoOf True (FindStringSubmatch rateRe rateLimitedMessage) =
     \<lparr>Model = ''gpt-4.1'', ScopeType = ''organization'',
      ScopeID = ''org-YvWUPqaYaDO3IEven3giqHwj'', Metric = ''tokens per min (TPM)'',
      Limit = 30000, Used = 30000, Requested = 1895, RetryAfter = 4000000000,
      DocsURL = ''https://platform.openai.com/account/rate-limits''\<rparr>"
proof -
  obtain m0 where rm: "FindStringSubmatch rateRe rateLimitedMessage =
     [m0, ''gpt-4.1'', ''organization'', ''org-YvWUPqaYaDO3IEven3giqHwj'',
      ''tokens per min (TPM)'', ''30000'', ''30000'', ''1895'', ''3.789'',
      ''https://platform.openai.com/account/rate-limits'']"
    using groups_rateLimitedMessage rateRe_rateLimitedMessage
    by (cases "FindStringSubmatch rateRe rateLimitedMessage") auto
  have a: "Atoi ''30000'' = (30000, False)" "Atoi ''1895'' = (1895, False)" by code_simp+
  have t: "TrimSpace ''tokens per min (TPM)'' = ''tokens per min (TPM)''" by code_simp
  show ?thesis
    unfolding rm
    by (simp add: rateInfoOf_def Let_def a t ParseFloat_3789 Round_3789 secondsToDuration_4
        positive_def)
qed

lemma parse_plainRateLimited_record:
  "ParseOpenAIPlainError id plainRateLimited =
     (Some \<lparr>Method = ''POST'', URL = ''https://api.openai.com/v1/chat/completions'',
            Status = 429, Reason = ''Too Many Requests'', Message = rateLimitedMessage,
            Type = ''tokens'', Param = None, Code = ''rate_limit_exceeded'',
            RateInfo = Some
              \<lparr>Model = ''gpt-4.1'', ScopeType = ''organization'',
               ScopeID = ''org-YvWUPqaYaDO3IEven3giqHwj'', Metric = ''tokens per min (TPM)'',
               Limit = 30000, Used = 30000, Requested = 1895, RetryAfter = 4000000000,
               DocsURL = ''https://platform.openai.com/account/rate-limits''\<rparr>\<rparr>, None)"
proof -
  have t: "TrimSpace ''Too Many Requests'' = ''Too Many Requests''" by code_simp
  have h: "plainHeader (FindStringSubmatch plainHeadRe (TrimSpace plainRateLimited))
     = \<lparr>Method = ''POST'', URL = ''https://api.openai.com/v1/chat/completions'',
        Status = 429, Reason = ''Too Many Requests'', Message = rateLimitedMessage,
        Type = [], Param = None, Code = [], RateInfo = None\<rparr>"
    by (simp add: plainHeader_def header_plainRateLimited Atoi_429 t
        TrimSpace_rateLimitedMessage)
  have m: "Contains (ToLower id ''tokens per min (TPM)'') ''token''" by code_simp
  have c: "Contains (ToLower id rateLimitedMessage) ''rate limit''" by code_simp
  have "ParseOpenAIPlainError id plainRateLimited
     = (Some (plainRateLimitDetails id
                (plainHeader (FindStringSubmatch plainHeadRe (TrimSpace plainRateLimited)))),
        None)"
    by (rule plain_result) (simp add: header_plainRateLimited)
  then show ?thesis
    unfolding h
    by (simp add: plainRateLimitDetails_def Let_def rateRe_rateLimitedMessage
        rateInfoOf_rateLimitedMessage m c del: ToLower.simps)
qed

lemma parseRawError_plainRateLimited:
  "parseRawError rejectAll id plainRateLimited = ParseOpenAIPlainError id plainRateLimited"
proof -
  have "FindStringSubmatch jsonHeadRe (TrimSpace plainRateLimited) = []" by code_simp
  then show ?thesis by (simp add: parseRawError_def json_rejects)
qed

section \<open>The classifiers\<close>

text \<open>
  Claim C9. On a non-nil error \<open>IsRateLimit\<close> is true exactly when the status is 429, or
  the code is \<open>rate_limit_exceeded\<close>, or the lower-cased message contains \<open>rate limit\<close>;
  on the nil error \<open>IsRateLimit\<close>, \<open>IsAuth\<close> and \<open>IsServerError\<close> are all false.
\<close>

theorem classifiers_C9:
  "IsRateLimit lowU (Some e)
     = (Status e = 429 \<or> Code e = ''rate_limit_exceeded''
        \<or> Contains (ToLower lowU (Message e)) ''rate limit'')
   \<and> IsRateLimit lowU None = False \<and> IsAuth None = False \<and> IsServerError None = False"
  by (simp add: IsRateLimit_def IsAuth_def IsServerError_def)


section \<open>Header recognition\<close>

text \<open>
  Claim C7. Each parser returns its unrecognized-header error, and no error record,
  exactly when its header pattern finds no match in the trimmed input. When the pattern
  of the JSON parser (or of the plain parser) matches, the parser returns an error record
  and a nil error, whatever the decoder \<open>um\<close> makes of the body: a missing body, a body
  that cannot be decoded and a decoded body all end that way.
\<close>

theorem header_verdict_C7:
  "(ParseOpenAIJsonError um lowU raw = (None, Some (errorString ''unrecognized header format'')))
      = (FindStringSubmatch jsonHeadRe (TrimSpace raw) = [])
   \<and> (\<exists>e. ParseOpenAIJsonError um lowU raw = (Some e, None))
      = (FindStringSubmatch jsonHeadRe (TrimSpace raw) \<noteq> [])
   \<and> (ParseOpenAIPlainError lowU raw = (None, Some (errorString ''unrecognized error format'')))
      = (FindStringSubmatch plainHeadRe (TrimSpace raw) = [])
   \<and> (\<exists>e. ParseOpenAIPlainError lowU raw = (Some e, None))
      = (FindStringSubmatch plainHeadRe (TrimSpace raw) \<noteq> [])"
proof -
  have j: "FindStringSubmatch jsonHeadRe (TrimSpace raw) = [] \<or>
        (\<exists>e. ParseOpenAIJsonError um lowU raw = (Some e, None))"
    using json_accepts by blast
  have p: "FindStringSubmatch plainHeadRe (TrimSpace raw) = [] \<or>
        (\<exists>e. ParseOpenAIPlainError lowU raw = (Some e, None))"
    using plain_accepts by blast
  from j p show ?thesis
    using json_rejects [of raw um lowU] plain_rejects [of raw lowU] by auto
qed



theorem header_verdict_C7_witness:
  "ParseOpenAIJsonError rejectAll id ''hello world''
     = (None, Some (errorString ''unrecognized header format''))
   \<and> ParseOpenAIPlainError id ''hello world''
     = (None, Some (errorString ''unrecognized error format''))
   \<and> (\<exists>e. ParseOpenAIPlainError id plainRateLimited = (Some e, None))
   \<and> (\<exists>e. ParseOpenAIJsonError rejectAll id jsonQuota = (Some e, None))"
proof -
  have j: "FindStringSubmatch jsonHeadRe (TrimSpace ''hello world'') = []" by code_simp
  have p: "FindStringSubmatch plainHeadRe (TrimSpace ''hello world'') = []" by code_simp
  from header_verdict_C7 [of rejectAll id "''hello world''"] j p
    header_verdict_C7 [of rejectAll id plainRateLimited]
    header_verdict_C7 [of rejectAll id jsonQuota]
  show ?thesis by (simp add: header_plainRateLimited header_jsonQuota)
qed

section \<open>Rate information and the rate-limit classifier\<close>

text \<open>
  Claim C1 says that an error record with rate information has status 429 and is a rate
  limit for the classifier. The parsers attach the rate information whenever the message
  matches the rate-limit pattern and never look at the status: the plain-dialect line
  with status 500 below comes back with rate information.
\<close>

theorem rateinfo_status_C1_counterexample:
  "fst (ParseOpenAIPlainError id plainServerError) \<noteq> None
   \<and> snd (ParseOpenAIPlainError id plainServerError) = None
   \<and> RateInfo (the (fst (ParseOpenAIPlainError id plainServerError))) \<noteq> None
   \<and> Status (the (fst (ParseOpenAIPlainError id plainServerError))) = 500"
  using parse_plainServerError by simp

text \<open>
  Claim C1, amended. If either parser returns an error record with rate information,
  then the message of the record matches the rate-limit pattern and \<open>IsRateLimit\<close> is true
  of the record; the status is the one of the header, 429 or not.
\<close>

theorem rateinfo_ratelimit_C1:
  assumes "ParseOpenAIJsonError um lowU raw = (Some e, err)
           \<or> ParseOpenAIPlainError lowU raw = (Some e, err)"
    and "RateInfo e \<noteq> None"
  shows "FindStringSubmatch rateRe (Message e) \<noteq> [] \<and> IsRateLimit lowU (Some e)"
proof -
  from assms have m: "FindStringSubmatch rateRe (Message e) \<noteq> []"
    using json_RateInfo [of um lowU raw e err] plain_RateInfo [of lowU raw e err] by blast
  then have "Contains (ToLower lowU (Message e)) ''rate limit''" by (rule rateRe_lower)
  with m show ?thesis by (simp add: IsRateLimit_def)
qed

theorem rateinfo_ratelimit_C1_witness:
  "fst (ParseOpenAIPlainError id plainServerError) \<noteq> None
   \<and> RateInfo (the (fst (ParseOpenAIPlainError id plainServerError))) \<noteq> None
   \<and> Status (the (fst (ParseOpenAIPlainError id plainServerError))) = 500
   \<and> IsRateLimit id (fst (ParseOpenAIPlainError id plainServerError))"
  using rateinfo_ratelimit_C1 [of rejectAll id plainServerError
      "the (fst (ParseOpenAIPlainError id plainServerError))" None]
    parse_plainServerError
  by simp

section \<open>The default code\<close>

lemma header_jsonNoCode:
  "FindStringSubmatch jsonHeadRe (TrimSpace jsonNoCode) =
     [''POST '' @ quoted ''https://api.openai.com/v1/chat/completions'' @ '': 429 Too Many Requests '',
      ''POST'', ''https://api.openai.com/v1/chat/completions'', ''429'', ''Too Many Requests'']"
  by code_simp

lemma body_jsonNoCode: "jsonPartOf (TrimSpace jsonNoCode) = Some jsonNoCodeBody"
  by code_simp

lemma decode_jsonNoCode:
  "decodeBody (decodesTo jsonNoCodeBody noCodeShell) jsonNoCodeBody = Some noCodeShell"
  by (simp add: decodeBody_def decodesTo_def)

lemma rateRe_quota_message: "FindStringSubmatch rateRe ''You exceeded your rate limit'' = []"
  by code_simp

lemma TrimSpace_Too_Many_Requests: "TrimSpace ''Too Many Requests'' = ''Too Many Requests''"
  by code_simp

text \<open>The record of \<open>jsonQuota\<close>, whose body carries the code \<open>insufficient_quota\<close>.\<close>

lemma parse_jsonQuota:
  "ParseOpenAIJsonError (decodesTo jsonQuotaBody quotaShell) id jsonQuota
     = (Some \<lparr>Method = ''POST'', URL = ''https://api.openai.com/v1/chat/completions'',
            Status = 429, Reason = ''Too Many Requests'',
            Message = ''You exceeded your rate limit'', Type = [], Param = None,
            Code = ''insufficient_quota'', RateInfo = None\<rparr>, None)"
proof -
  let ?h = "jsonHeader (FindStringSubmatch jsonHeadRe (TrimSpace jsonQuota))"
  have p: "ParseOpenAIJsonError (decodesTo jsonQuotaBody quotaShell) id jsonQuota
       = (Some (defaultCode id (rateLimitDetails (fillFromShell quotaShell ?h))), None)"
    by (rule json_result [OF _ body_jsonQuota decode_jsonQuota]) (simp add: header_jsonQuota)
  have f: "rateLimitDetails (fillFromShell quotaShell ?h)
        = \<lparr>Method = ''POST'', URL = ''https://api.openai.com/v1/chat/completions'',
            Status = 429, Reason = ''Too Many Requests'',
            Message = ''You exceeded your rate limit'', Type = [], Param = None,
            Code = ''insufficient_quota'', RateInfo = None\<rparr>"
    by (simp add: rateLimitDetails_def fillFromShell_def quotaShell_def jsonHeader_def
        header_jsonQuota Atoi_429 TrimSpace_Too_Many_Requests rateRe_quota_message)
  show ?thesis unfolding p f by (simp add: defaultCode_def)
qed

text \<open>
  Claim C2 says that a returned record with status 429 and a message containing
  \<open>rate limit\<close> has the code \<open>rate_limit_exceeded\<close> whatever code the upstream text
  supplied. The JSON parser writes the default code only over an empty code (the guard
  \<^verbatim>\<open>e.Code == ""\<close> of line 183): the line below has status 429, a message that contains
  \<open>rate limit\<close> and the code \<open>insufficient_quota\<close> in its body, and that code is returned.
\<close>

theorem default_code_C2_counterexample:
  "ParseOpenAIJsonError (decodesTo jsonQuotaBody quotaShell) id jsonQuota
     = (Some \<lparr>Method = ''POST'', URL = ''https://api.openai.com/v1/chat/completions'',
            Status = 429, Reason = ''Too Many Requests'',
            Message = ''You exceeded your rate limit'', Type = [], Param = None,
            Code = ''insufficient_quota'', RateInfo = None\<rparr>, None)
   \<and> Contains (ToLower id ''You exceeded your rate limit'') ''rate limit''
   \<and> ''insufficient_quota'' \<noteq> ''rate_limit_exceeded''"
  using parse_jsonQuota lower_quota [of id] by simp

text \<open>
  Claim C2, amended. When the JSON parser has decoded the body and returns a record with
  status 429 whose message contains \<open>rate limit\<close> in any case of letters, the code of the
  record is \<open>rate_limit_exceeded\<close> if the decoded code is empty, and the decoded code
  as it is otherwise.
\<close>

theorem default_code_C2:
  assumes "ParseOpenAIJsonError um lowU raw = (Some e, err)"
    and "jsonPartOf (TrimSpace raw) = Some jp" and "decodeBody um jp = Some sh"
    and "c = (case sh_Error sh of Some inner \<Rightarrow> in_Code inner | None \<Rightarrow> sh_Code sh)"
    and "Status e = 429" and "Contains (ToLower lowU (Message e)) ''rate limit''"
  shows "Code e = (if c = [] then ''rate_limit_exceeded'' else c)"
proof -
  let ?f = "rateLimitDetails (fillFromShell sh
               (jsonHeader (FindStringSubmatch jsonHeadRe (TrimSpace raw))))"
  from assms(1-3) json_paths [of um lowU raw e err] have e: "e = defaultCode lowU ?f"
    by (simp add: Let_def)
  have c: "Code ?f = c" using assms(4) by (simp add: fillFromShell_Code)
  from assms(5,6) e have "Status ?f = 429" "Contains (ToLower lowU (Message ?f)) ''rate limit''"
    by simp_all
  with c show ?thesis unfolding e by (simp add: defaultCode_def)
qed

theorem default_code_C2_witness:
  "ParseOpenAIJsonError (decodesTo jsonNoCodeBody noCodeShell) id jsonNoCode
     = (Some \<lparr>Method = ''POST'', URL = ''https://api.openai.com/v1/chat/completions'',
            Status = 429, Reason = ''Too Many Requests'',
            Message = ''You exceeded your rate limit'', Type = [], Param = None,
            Code = ''rate_limit_exceeded'', RateInfo = None\<rparr>, None)"
proof -
  let ?um = "decodesTo jsonNoCodeBody noCodeShell"
  let ?h = "jsonHeader (FindStringSubmatch jsonHeadRe (TrimSpace jsonNoCode))"
  let ?e = "defaultCode id (rateLimitDetails (fillFromShell noCodeShell ?h))"
  have p: "ParseOpenAIJsonError ?um id jsonNoCode = (Some ?e, None)"
    by (rule json_result [OF _ body_jsonNoCode decode_jsonNoCode]) (simp add: header_jsonNoCode)
  have f: "rateLimitDetails (fillFromShell noCodeShell ?h)
        = \<lparr>Method = ''POST'', URL = ''https://api.openai.com/v1/chat/completions'',
            Status = 429, Reason = ''Too Many Requests'',
            Message = ''You exceeded your rate limit'', Type = [], Param = None,
            Code = [], RateInfo = None\<rparr>"
    by (simp add: rateLimitDetails_def fillFromShell_def noCodeShell_def jsonHeader_def
        header_jsonNoCode Atoi_429 TrimSpace_Too_Many_Requests rateRe_quota_message)
  have s: "Status ?e = 429" and m: "Message ?e = ''You exceeded your rate limit''"
    by (simp_all add: f)
  have c: "Code ?e = ''rate_limit_exceeded''"
    using default_code_C2 [OF p body_jsonNoCode decode_jsonNoCode refl s]
      lower_quota [of id] m
    by (simp add: noCodeShell_def)
  have "?e = (rateLimitDetails (fillFromShell noCodeShell ?h))\<lparr>Code := Code ?e\<rparr>"
    by (simp add: defaultCode_def)
  with c f have "?e = \<lparr>Method = ''POST'', URL = ''https://api.openai.com/v1/chat/completions'',
            Status = 429, Reason = ''Too Many Requests'',
            Message = ''You exceeded your rate limit'', Type = [], Param = None,
            Code = ''rate_limit_exceeded'', RateInfo = None\<rparr>"
    by simp
  with p show ?thesis by simp
qed

text \<open>
  The plain parser is not part of the amended claim. It tests the status and the message
  in the same way, but only inside the branch of a message that matches the rate-limit
  pattern: a 429 that speaks of the rate limit in other words keeps the empty code.
\<close>

lemma plain_other_wording_keeps_empty_code:
  "ParseOpenAIPlainError id plainOtherWording =
     (Some \<lparr>Method = ''POST'', URL = ''https://api.openai.com/v1/chat/completions'',
            Status = 429, Reason = ''Too Many Requests'',
            Message = ''You exceeded your rate limit, slow down.'', Type = [], Param = None,
            Code = [], RateInfo = None\<rparr>, None)
   \<and> Contains (ToLower id ''You exceeded your rate limit, slow down.'') ''rate limit''"
  using parse_plainOtherWording lower_otherWording [of id] by simp

text \<open>
  Claim C3. When the JSON parser has decoded the body and the decoded code is not empty,
  the record carries that code unchanged; the returned code differs from the decoded one
  only if the decoded one is empty, the status is 429 and the message contains
  \<open>rate limit\<close>, and then it is \<open>rate_limit_exceeded\<close>.
\<close>

theorem upstream_code_kept_C3:
  assumes "ParseOpenAIJsonError um lowU raw = (Some e, err)"
    and "jsonPartOf (TrimSpace raw) = Some jp" and "decodeBody um jp = Some sh"
    and "c = (case sh_Error sh of Some inner \<Rightarrow> in_Code inner | None \<Rightarrow> sh_Code sh)"
  shows "(c \<noteq> [] \<longrightarrow> Code e = c)
     \<and> (Code e \<noteq> c \<longrightarrow> c = [] \<and> Code e = ''rate_limit_exceeded'' \<and> Status e = 429
           \<and> Contains (ToLower lowU (Message e)) ''rate limit'')"
proof -
  let ?f = "rateLimitDetails (fillFromShell sh
               (jsonHeader (FindStringSubmatch jsonHeadRe (TrimSpace raw))))"
  from assms json_paths [of um lowU raw e err] have e: "e = defaultCode lowU ?f"
    by (simp add: Let_def)
  have c: "Code ?f = c" using assms(4) by (simp add: fillFromShell_Code)
  show ?thesis unfolding e using c by (auto simp: defaultCode_def)
qed

theorem upstream_code_kept_C3_witness:
  "ParseOpenAIJsonError (decodesTo jsonQuotaBody quotaShell) id jsonQuota
     = (Some \<lparr>Method = ''POST'', URL = ''https://api.openai.com/v1/chat/completions'',
            Status = 429, Reason = ''Too Many Requests'',
            Message = ''You exceeded your rate limit'', Type = [], Param = None,
            Code = ''insufficient_quota'', RateInfo = None\<rparr>, None)"
proof -
  let ?um = "decodesTo jsonQuotaBody quotaShell"
  let ?h = "jsonHeader (FindStringSubmatch jsonHeadRe (TrimSpace jsonQuota))"
  have t: "TrimSpace ''Too Many Requests'' = ''Too Many Requests''" by code_simp
  have r: "FindStringSubmatch rateRe ''You exceeded your rate limit'' = []" by code_simp
  have p: "ParseOpenAIJsonError ?um id jsonQuota
       = (Some (defaultCode id (rateLimitDetails (fillFromShell quotaShell ?h))), None)"
    by (rule json_result [OF _ body_jsonQuota decode_jsonQuota]) (simp add: header_jsonQuota)
  have c: "Code (defaultCode id (rateLimitDetails (fillFromShell quotaShell ?h)))
        = ''insufficient_quota''"
    using upstream_code_kept_C3 [OF p body_jsonQuota decode_jsonQuota refl]
    by (simp add: quotaShell_def)
  have f: "rateLimitDetails (fillFromShell quotaShell ?h)
        = \<lparr>Method = ''POST'', URL = ''https://api.openai.com/v1/chat/completions'',
            Status = 429, Reason = ''Too Many Requests'',
            Message = ''You exceeded your rate limit'', Type = [], Param = None,
            Code = ''insufficient_quota'', RateInfo = None\<rparr>"
    by (simp add: rateLimitDetails_def fillFromShell_def quotaShell_def jsonHeader_def
        header_jsonQuota Atoi_429 t r)
  from c have "defaultCode id (rateLimitDetails (fillFromShell quotaShell ?h))
        = rateLimitDetails (fillFromShell quotaShell ?h)"
    by (simp add: defaultCode_def split: if_splits)
  with p f show ?thesis by simp
qed


section \<open>Bodies that do not decode\<close>

text \<open>
  Claim C8. Let the header match, let \<open>jp\<close> be the body text (from the first \<open>{\<close> on,
  trimmed, escapes replaced) and let its decoding fail. If \<open>jp\<close> has no \<open>}\<close> after its
  first byte, or the decoding of the prefix that ends at the last \<open>}\<close> fails too, the
  record has the trimmed \<open>jp\<close> as its message and type, parameter, code and rate
  information empty. If the decoding of that prefix succeeds, message, type, parameter
  and code are those of the struct decoded from the prefix, the code being replaced by
  the default code when it is empty and the default rule applies.
\<close>

theorem truncation_tolerance_C8:
  assumes "FindStringSubmatch jsonHeadRe (TrimSpace raw) \<noteq> []"
    and "jsonPartOf (TrimSpace raw) = Some jp"
    and "um jp shell0 = (sh, Some err)"
  shows "((LastIndex jp ''}'' = None \<or> LastIndex jp ''}'' = Some 0
           \<or> (\<exists>l sh' err'. LastIndex jp ''}'' = Some l
                  \<and> um (take (l + 1) jp) sh = (sh', Some err')))
          \<longrightarrow> (\<exists>e. ParseOpenAIJsonError um lowU raw = (Some e, None)
                 \<and> Message e = TrimSpace jp \<and> Type e = [] \<and> Param e = None \<and> Code e = []
                 \<and> RateInfo e = None))
     \<and> (\<forall>l sh'. LastIndex jp ''}'' = Some l \<and> 0 < l \<and> um (take (l + 1) jp) sh = (sh', None)
          \<longrightarrow> (\<exists>e. ParseOpenAIJsonError um lowU raw = (Some e, None)
                 \<and> Message e = (case sh_Error sh' of Some inner \<Rightarrow> in_Message inner
                                 | None \<Rightarrow> sh_Message sh')
                 \<and> Type e = (case sh_Error sh' of Some inner \<Rightarrow> in_Type inner
                              | None \<Rightarrow> sh_Type sh')
                 \<and> Param e = (case sh_Error sh' of Some inner \<Rightarrow> in_Param inner
                               | None \<Rightarrow> sh_Param sh')
                 \<and> (Code e = (case sh_Error sh' of Some inner \<Rightarrow> in_Code inner
                               | None \<Rightarrow> sh_Code sh')
                     \<or> (case sh_Error sh' of Some inner \<Rightarrow> in_Code inner
                         | None \<Rightarrow> sh_Code sh') = []
                        \<and> Code e = ''rate_limit_exceeded'')))"
proof (intro conjI impI allI)
  let ?m = "FindStringSubmatch jsonHeadRe (TrimSpace raw)"
  from assms(1) jsonHead_length [of "TrimSpace raw"] have len: "length ?m = 5" by simp
  {
    assume "LastIndex jp ''}'' = None \<or> LastIndex jp ''}'' = Some 0
           \<or> (\<exists>l sh' err'. LastIndex jp ''}'' = Some l
                  \<and> um (take (l + 1) jp) sh = (sh', Some err'))"
    with assms(3) have "decodeBody um jp = None"
      by (auto simp: decodeBody_def)
    from json_fallback [OF len assms(2) this, of lowU]
    show "\<exists>e. ParseOpenAIJsonError um lowU raw = (Some e, None)
                 \<and> Message e = TrimSpace jp \<and> Type e = [] \<and> Param e = None \<and> Code e = []
                 \<and> RateInfo e = None"
      by simp
  }
  {
    fix l sh'
    assume "LastIndex jp ''}'' = Some l \<and> 0 < l \<and> um (take (l + 1) jp) sh = (sh', None)"
    with assms(3) have d: "decodeBody um jp = Some sh'"
      by (auto simp: decodeBody_def)
    let ?e = "defaultCode lowU (rateLimitDetails (fillFromShell sh' (jsonHeader ?m)))"
    have p: "ParseOpenAIJsonError um lowU raw = (Some ?e, None)"
      by (rule json_result [OF len assms(2) d])
    have "Code ?e = Code (fillFromShell sh' (jsonHeader ?m))
          \<or> Code (fillFromShell sh' (jsonHeader ?m)) = [] \<and> Code ?e = ''rate_limit_exceeded''"
      by (simp add: defaultCode_def)
    with p show "\<exists>e. ParseOpenAIJsonError um lowU raw = (Some e, None)
                 \<and> Message e = (case sh_Error sh' of Some inner \<Rightarrow> in_Message inner
                                 | None \<Rightarrow> sh_Message sh')
                 \<and> Type e = (case sh_Error sh' of Some inner \<Rightarrow> in_Type inner
                              | None \<Rightarrow> sh_Type sh')
                 \<and> Param e = (case sh_Error sh' of Some inner \<Rightarrow> in_Param inner
                               | None \<Rightarrow> sh_Param sh')
                 \<and> (Code e = (case sh_Error sh' of Some inner \<Rightarrow> in_Code inner
                               | None \<Rightarrow> sh_Code sh')
                     \<or> (case sh_Error sh' of Some inner \<Rightarrow> in_Code inner
                         | None \<Rightarrow> sh_Code sh') = []
                        \<and> Code e = ''rate_limit_exceeded'')"
      by (simp add: fillFromShell_Code)
  }
qed

lemma header_jsonQuotaTrailing:
  "FindStringSubmatch jsonHeadRe (TrimSpace jsonQuotaTrailing) =
     [''POST '' @ quoted ''https://api.openai.com/v1/chat/completions'' @ '': 429 Too Many Requests '',
      ''POST'', ''https://api.openai.com/v1/chat/completions'', ''429'', ''Too Many Requests'']"
  by code_simp

lemma body_jsonQuotaTrailing:
  "jsonPartOf (TrimSpace jsonQuotaTrailing) = Some (jsonQuotaBody @ '' (request req_42)'')"
  by code_simp

lemma last_jsonQuotaTrailing:
  "LastIndex (jsonQuotaBody @ '' (request req_42)'') ''}'' = Some 72
   \<and> take (72 + 1) (jsonQuotaBody @ '' (request req_42)'') = jsonQuotaBody"
  by code_simp

lemma header_jsonCutOff:
  "FindStringSubmatch jsonHeadRe (TrimSpace jsonCutOff) =
     [''POST '' @ quoted ''https://api.openai.com/v1/chat/completions'' @ '': 502 Bad Gateway '',
      ''POST'', ''https://api.openai.com/v1/chat/completions'', ''502'', ''Bad Gateway'']"
  by code_simp

lemma body_jsonCutOff:
  "jsonPartOf (TrimSpace jsonCutOff)
     = Some (''{'' @ quoted ''message'' @ '': '' @ [CHR 0x22] @ ''Upstream err'')
   \<and> LastIndex (''{'' @ quoted ''message'' @ '': '' @ [CHR 0x22] @ ''Upstream err'') ''}'' = None
   \<and> TrimSpace (''{'' @ quoted ''message'' @ '': '' @ [CHR 0x22] @ ''Upstream err'')
     = ''{'' @ quoted ''message'' @ '': '' @ [CHR 0x22] @ ''Upstream err''"
  by code_simp

theorem truncation_tolerance_C8_witness:
  "(\<exists>e. ParseOpenAIJsonError rejectAll id jsonCutOff = (Some e, None)
        \<and> Message e = ''{'' @ quoted ''message'' @ '': '' @ [CHR 0x22] @ ''Upstream err''
        \<and> Type e = [] \<and> Param e = None \<and> Code e = [] \<and> RateInfo e = None)
   \<and> (\<exists>e. ParseOpenAIJsonError (decodesTo jsonQuotaBody quotaShell) id jsonQuotaTrailing
              = (Some e, None)
        \<and> Message e = ''You exceeded your rate limit'' \<and> Type e = [] \<and> Param e = None
        \<and> Code e = ''insufficient_quota'')"
proof -
  let ?jp = "''{'' @ quoted ''message'' @ '': '' @ [CHR 0x22] @ ''Upstream err''"
  have a: "FindStringSubmatch jsonHeadRe (TrimSpace jsonCutOff) \<noteq> []"
    by (simp add: header_jsonCutOff)
  have b: "rejectAll ?jp shell0 = (shell0, Some (errorString ''invalid character''))"
    by (simp add: rejectAll_def)
  have 1: "\<exists>e. ParseOpenAIJsonError rejectAll id jsonCutOff = (Some e, None)
        \<and> Message e = ?jp \<and> Type e = [] \<and> Param e = None \<and> Code e = [] \<and> RateInfo e = None"
    using truncation_tolerance_C8 [where um = rejectAll and raw = jsonCutOff and jp = ?jp
        and sh = shell0 and lowU = id] a b body_jsonCutOff
    by simp
  let ?um = "decodesTo jsonQuotaBody quotaShell"
  let ?jq = "jsonQuotaBody @ '' (request req_42)''"
  have c: "FindStringSubmatch jsonHeadRe (TrimSpace jsonQuotaTrailing) \<noteq> []"
    by (simp add: header_jsonQuotaTrailing)
  have d: "?um ?jq shell0 = (shell0, Some (errorString ''invalid character''))"
    by (simp add: decodesTo_def)
  have e: "?um (take (72 + 1) ?jq) shell0 = (quotaShell, None)"
    using last_jsonQuotaTrailing by (simp add: decodesTo_def)
  have 2: "\<exists>e. ParseOpenAIJsonError ?um id jsonQuotaTrailing = (Some e, None)
        \<and> Message e = ''You exceeded your rate limit'' \<and> Type e = [] \<and> Param e = None
        \<and> Code e = ''insufficient_quota''"
    using truncation_tolerance_C8 [where um = ?um and raw = jsonQuotaTrailing and jp = ?jq
        and sh = shell0 and lowU = id] c body_jsonQuotaTrailing d
      last_jsonQuotaTrailing e
    by (auto simp: quotaShell_def)
  from 1 2 show ?thesis by blast
qed


section \<open>The retry loop\<close>

lemma parseRawError_cases:
  "(\<exists>err. parseRawError um lowU raw = (None, Some err))
   \<or> (\<exists>e. parseRawError um lowU raw = (Some e, None))"
proof (cases "FindStringSubmatch jsonHeadRe (TrimSpace raw) = []")
  case False
  from json_accepts [OF this, of um lowU] show ?thesis
    by (auto simp: parseRawError_def)
next
  case True
  then have j: "ParseOpenAIJsonError um lowU raw
                  = (None, Some (errorString ''unrecognized header format''))"
    by (rule json_rejects)
  show ?thesis
  proof (cases "FindStringSubmatch plainHeadRe (TrimSpace raw) = []")
    case True
    from plain_rejects [OF this, of lowU] j show ?thesis by (simp add: parseRawError_def)
  next
    case False
    from plain_accepts [OF this, of lowU] j show ?thesis by (auto simp: parseRawError_def)
  qed
qed

lemma retryDecision_no_panic: "retryDecision um lowU raw \<noteq> NilDereference"
  using parseRawError_cases [of um lowU raw]
  by (auto simp: retryDecision_def split: option.splits if_splits)

lemma retryDecision_Sleep:
  "(retryDecision um lowU raw = Sleep d) =
     (\<exists>e ri. parseRawError um lowU raw = (Some e, None) \<and> Status e = 429
         \<and> Code e = ''rate_limit_exceeded'' \<and> RateInfo e = Some ri
         \<and> d = RetryAfter ri + 100 * Millisecond)"
  by (auto simp: retryDecision_def split: option.splits prod.splits)

lemma retryDecision_GiveUp:
  "(retryDecision um lowU raw = GiveUp) =
     (\<not> (\<exists>e ri. parseRawError um lowU raw = (Some e, None) \<and> Status e = 429
         \<and> Code e = ''rate_limit_exceeded'' \<and> RateInfo e = Some ri))"
proof (cases "retryDecision um lowU raw")
  case (Sleep d)
  with retryDecision_Sleep [of um lowU raw d] show ?thesis by auto
next
  case GiveUp
  have "\<not> (\<exists>d. retryDecision um lowU raw = Sleep d)" using GiveUp by simp
  then have "\<not> (\<exists>e ri. parseRawError um lowU raw = (Some e, None) \<and> Status e = 429
         \<and> Code e = ''rate_limit_exceeded'' \<and> RateInfo e = Some ri)"
    unfolding retryDecision_Sleep by blast
  with GiveUp show ?thesis by simp
next
  case NilDereference
  with retryDecision_no_panic [of um lowU raw] show ?thesis by simp
qed

text \<open>The loop, unrolled: what it returns after one, two and three requests.\<close>

lemma generateJsonContent_unrolled:
  "generateJsonContent um lowU call =
     (case call 0 of
        Inr c \<Rightarrow> (Proceeds c, \<lparr>requests = Suc 0, sleeps = []\<rparr>)
      | Inl r0 \<Rightarrow>
          (case retryDecision um lowU r0 of
             GiveUp \<Rightarrow> (Surfaced r0, \<lparr>requests = Suc 0, sleeps = []\<rparr>)
           | NilDereference \<Rightarrow> (Panics, \<lparr>requests = Suc 0, sleeps = []\<rparr>)
           | Sleep d0 \<Rightarrow>
               (case call (Suc 0) of
                  Inr c \<Rightarrow> (Proceeds c, \<lparr>requests = Suc (Suc 0), sleeps = [d0]\<rparr>)
                | Inl r1 \<Rightarrow>
                    (case retryDecision um lowU r1 of
                       GiveUp \<Rightarrow> (Surfaced r1, \<lparr>requests = Suc (Suc 0), sleeps = [d0]\<rparr>)
                     | NilDereference \<Rightarrow> (Panics, \<lparr>requests = Suc (Suc 0), sleeps = [d0]\<rparr>)
                     | Sleep d1 \<Rightarrow>
                         (case call (Suc (Suc 0)) of
                            Inr c \<Rightarrow>
                              (Proceeds c, \<lparr>requests = Suc (Suc (Suc 0)), sleeps = [d0, d1]\<rparr>)
                          | Inl r2 \<Rightarrow>
                              (case retryDecision um lowU r2 of
                                 GiveUp \<Rightarrow>
                                   (Surfaced r2,
                                    \<lparr>requests = Suc (Suc (Suc 0)), sleeps = [d0, d1]\<rparr>)
                               | NilDereference \<Rightarrow>
                                   (Panics, \<lparr>requests = Suc (Suc (Suc 0)), sleeps = [d0, d1]\<rparr>)
                               | Sleep d2 \<Rightarrow>
                                   (Surfaced r2,
                                    \<lparr>requests = Suc (Suc (Suc 0)),
                                     sleeps = [d0, d1, d2]\<rparr>)))))))"
  by (simp add: generateJsonContent_def eval_nat_numeral Let_def
      split: sum.splits decision.splits)


lemma generateJsonContent_shape:
  assumes "generateJsonContent um lowU call = (out, tr)"
  obtains
    (first_ok) c where "call 0 = Inr c" "out = Proceeds c"
      "tr = \<lparr>requests = Suc 0, sleeps = []\<rparr>"
  | (first_fatal) r0 where "call 0 = Inl r0" "retryDecision um lowU r0 = GiveUp"
      "out = Surfaced r0" "tr = \<lparr>requests = Suc 0, sleeps = []\<rparr>"
  | (second_ok) r0 d0 c where "call 0 = Inl r0" "retryDecision um lowU r0 = Sleep d0"
      "call (Suc 0) = Inr c" "out = Proceeds c"
      "tr = \<lparr>requests = Suc (Suc 0), sleeps = [d0]\<rparr>"
  | (second_fatal) r0 d0 r1 where "call 0 = Inl r0" "retryDecision um lowU r0 = Sleep d0"
      "call (Suc 0) = Inl r1" "retryDecision um lowU r1 = GiveUp" "out = Surfaced r1"
      "tr = \<lparr>requests = Suc (Suc 0), sleeps = [d0]\<rparr>"
  | (third_ok) r0 d0 r1 d1 c where "call 0 = Inl r0" "retryDecision um lowU r0 = Sleep d0"
      "call (Suc 0) = Inl r1" "retryDecision um lowU r1 = Sleep d1"
      "call (Suc (Suc 0)) = Inr c" "out = Proceeds c"
      "tr = \<lparr>requests = Suc (Suc (Suc 0)), sleeps = [d0, d1]\<rparr>"
  | (third_fatal) r0 d0 r1 d1 r2 where "call 0 = Inl r0" "retryDecision um lowU r0 = Sleep d0"
      "call (Suc 0) = Inl r1" "retryDecision um lowU r1 = Sleep d1"
      "call (Suc (Suc 0)) = Inl r2" "retryDecision um lowU r2 = GiveUp" "out = Surfaced r2"
      "tr = \<lparr>requests = Suc (Suc (Suc 0)), sleeps = [d0, d1]\<rparr>"
  | (exhausted) r0 d0 r1 d1 r2 d2 where "call 0 = Inl r0" "retryDecision um lowU r0 = Sleep d0"
      "call (Suc 0) = Inl r1" "retryDecision um lowU r1 = Sleep d1"
      "call (Suc (Suc 0)) = Inl r2" "retryDecision um lowU r2 = Sleep d2" "out = Surfaced r2"
      "tr = \<lparr>requests = Suc (Suc (Suc 0)), sleeps = [d0, d1, d2]\<rparr>"
  using assms retryDecision_no_panic [of um lowU]
  unfolding generateJsonContent_unrolled
  by (auto split: sum.splits decision.splits)

text \<open>
  Claim C4. \<open>generateJsonContent\<close> sends at least one and at most three requests. A
  request is followed by another one only if it failed with an error that the parsers
  turn into a record with status 429, code \<open>rate_limit_exceeded\<close> and rate information,
  and then the loop has slept for the advised delay plus 100 ms in between. A request that
  fails in any other way (both parsers reject the text, or the record is not of that
  kind) is the last one and its error is returned; a request that succeeds is the last
  one and its completion is used; the third error is returned as well.
\<close>

theorem retry_driver_C4:
  assumes "generateJsonContent um lowU call = (out, tr)"
  shows "1 \<le> requests tr \<and> requests tr \<le> 3
     \<and> (\<forall>i. Suc i < requests tr \<longrightarrow>
           (\<exists>raw e ri. call i = Inl raw \<and> parseRawError um lowU raw = (Some e, None)
               \<and> Status e = 429 \<and> Code e = ''rate_limit_exceeded'' \<and> RateInfo e = Some ri
               \<and> i < length (sleeps tr)
               \<and> sleeps tr ! i = RetryAfter ri + 100 * Millisecond))
     \<and> (\<forall>i raw. i < requests tr \<and> call i = Inl raw
             \<and> \<not> (\<exists>e ri. parseRawError um lowU raw = (Some e, None) \<and> Status e = 429
                      \<and> Code e = ''rate_limit_exceeded'' \<and> RateInfo e = Some ri)
           \<longrightarrow> out = Surfaced raw \<and> requests tr = Suc i)
     \<and> (\<forall>i c. i < requests tr \<and> call i = Inr c \<longrightarrow> out = Proceeds c \<and> requests tr = Suc i)
     \<and> (\<forall>raw. requests tr = 3 \<and> call 2 = Inl raw \<longrightarrow> out = Surfaced raw)
     \<and> out \<noteq> Panics"
proof -
  have two: "(2::nat) = Suc (Suc 0)" by simp
  have lt1: "\<And>i. i < Suc 0 \<longleftrightarrow> i = 0" by auto
  have lt2: "\<And>i. i < Suc (Suc 0) \<longleftrightarrow> i = 0 \<or> i = Suc 0" by auto
  have lt3: "\<And>i. i < Suc (Suc (Suc 0)) \<longleftrightarrow> i = 0 \<or> i = Suc 0 \<or> i = Suc (Suc 0)" by auto
  from assms show ?thesis
  proof (cases rule: generateJsonContent_shape)
    case (first_ok c)
    then show ?thesis by (auto simp: less_Suc_eq intro!: gr0I)
  next
    case (first_fatal r0)
    then show ?thesis by (auto simp: less_Suc_eq intro!: gr0I)
  next
    case (second_ok r0 d0 c)
    from second_ok(2) obtain e ri where "parseRawError um lowU r0 = (Some e, None)"
      "Status e = 429" "Code e = ''rate_limit_exceeded''" "RateInfo e = Some ri"
      "d0 = RetryAfter ri + 100 * Millisecond"
      unfolding retryDecision_Sleep by blast
    with second_ok show ?thesis by (auto simp: less_Suc_eq intro!: gr0I)
  next
    case (second_fatal r0 d0 r1)
    from second_fatal(2) obtain e ri where "parseRawError um lowU r0 = (Some e, None)"
      "Status e = 429" "Code e = ''rate_limit_exceeded''" "RateInfo e = Some ri"
      "d0 = RetryAfter ri + 100 * Millisecond"
      unfolding retryDecision_Sleep by blast
    with second_fatal show ?thesis by (auto simp: less_Suc_eq intro!: gr0I)
  next
    case (third_ok r0 d0 r1 d1 c)
    from third_ok(2) obtain e ri where 0: "parseRawError um lowU r0 = (Some e, None)"
      "Status e = 429" "Code e = ''rate_limit_exceeded''" "RateInfo e = Some ri"
      "d0 = RetryAfter ri + 100 * Millisecond"
      unfolding retryDecision_Sleep by blast
    from third_ok(4) obtain e' ri' where 1: "parseRawError um lowU r1 = (Some e', None)"
      "Status e' = 429" "Code e' = ''rate_limit_exceeded''" "RateInfo e' = Some ri'"
      "d1 = RetryAfter ri' + 100 * Millisecond"
      unfolding retryDecision_Sleep by blast
    from third_ok 0 1 show ?thesis by (auto simp: less_Suc_eq two intro!: gr0I)
  next
    case (third_fatal r0 d0 r1 d1 r2)
    from third_fatal(2) obtain e ri where 0: "parseRawError um lowU r0 = (Some e, None)"
      "Status e = 429" "Code e = ''rate_limit_exceeded''" "RateInfo e = Some ri"
      "d0 = RetryAfter ri + 100 * Millisecond"
      unfolding retryDecision_Sleep by blast
    from third_fatal(4) obtain e' ri' where 1: "parseRawError um lowU r1 = (Some e', None)"
      "Status e' = 429" "Code e' = ''rate_limit_exceeded''" "RateInfo e' = Some ri'"
      "d1 = RetryAfter ri' + 100 * Millisecond"
      unfolding retryDecision_Sleep by blast
    from third_fatal 0 1 show ?thesis by (auto simp: less_Suc_eq two intro!: gr0I)
  next
    case (exhausted r0 d0 r1 d1 r2 d2)
    from exhausted(2) obtain e ri where 0: "parseRawError um lowU r0 = (Some e, None)"
      "Status e = 429" "Code e = ''rate_limit_exceeded''" "RateInfo e = Some ri"
      "d0 = RetryAfter ri + 100 * Millisecond"
      unfolding retryDecision_Sleep by blast
    from exhausted(4) obtain e' ri' where 1: "parseRawError um lowU r1 = (Some e', None)"
      "Status e' = 429" "Code e' = ''rate_limit_exceeded''" "RateInfo e' = Some ri'"
      "d1 = RetryAfter ri' + 100 * Millisecond"
      unfolding retryDecision_Sleep by blast
    from exhausted(6) obtain e'' ri'' where 2: "parseRawError um lowU r2 = (Some e'', None)"
      "Status e'' = 429" "Code e'' = ''rate_limit_exceeded''" "RateInfo e'' = Some ri''"
      unfolding retryDecision_Sleep by blast
    from exhausted 0 1 2 show ?thesis by (auto simp: less_Suc_eq two intro!: gr0I)
  qed
qed


theorem retry_driver_C4_witness:
  "generateJsonContent rejectAll id (\<lambda>i. if i = 0 then Inl plainRateLimited else Inr ''{}'')
     = (Proceeds ''{}'', \<lparr>requests = 2, sleeps = [4100000000]\<rparr>)
   \<and> (\<exists>e ri. parseRawError rejectAll id plainRateLimited = (Some e, None)
         \<and> Status e = 429 \<and> Code e = ''rate_limit_exceeded'' \<and> RateInfo e = Some ri
         \<and> RetryAfter ri + 100 * Millisecond = 4100000000)"
proof -
  let ?call = "\<lambda>i::nat. if i = 0 then Inl plainRateLimited else (Inr ''{}'' :: string + string)"
  have d: "retryDecision rejectAll id plainRateLimited = Sleep 4100000000"
    by (simp add: retryDecision_def parseRawError_plainRateLimited
        parse_plainRateLimited_record Millisecond_def)
  have g: "generateJsonContent rejectAll id ?call
             = (Proceeds ''{}'', \<lparr>requests = 2, sleeps = [4100000000]\<rparr>)"
    unfolding generateJsonContent_unrolled by (simp add: d)
  from retry_driver_C4 [OF g]
  have "\<exists>raw e ri. ?call 0 = Inl raw \<and> parseRawError rejectAll id raw = (Some e, None)
          \<and> Status e = 429 \<and> Code e = ''rate_limit_exceeded'' \<and> RateInfo e = Some ri
          \<and> 0 < length [4100000000 :: Duration]
          \<and> [4100000000] ! 0 = RetryAfter ri + 100 * Millisecond"
    by simp
  then have "\<exists>e ri. parseRawError rejectAll id plainRateLimited = (Some e, None)
         \<and> Status e = 429 \<and> Code e = ''rate_limit_exceeded'' \<and> RateInfo e = Some ri
         \<and> RetryAfter ri + 100 * Millisecond = 4100000000"
    by auto
  with g show ?thesis by simp
qed

end
